theory Spec2Isabelle
  imports Main
begin

section \<open>Tiles, settings and command results\<close>

text \<open>
  Modelled from the spec: the tile accessors \<open>TileX\<close>, \<open>TileY\<close>, \<open>TileXY\<close> and
  \<open>TILE_ADDXY\<close> are declared in the map headers, which are not among the sources. The
  spec's glossary takes a tile as a unit cell of the world grid, addressable by integer
  (x, y); a \<open>TileIndex\<close> is therefore the pair of its coordinates. The source reads both
  coordinates into \<open>int\<close> variables; map coordinates are far below the range of a 32-bit
  \<open>int\<close>, so no wrap-around is written out.
\<close>

type_synonym TileIndex = "int \<times> int"

definition TileX :: "TileIndex \<Rightarrow> int" where
  "TileX tile = fst tile"

definition TileY :: "TileIndex \<Rightarrow> int" where
  "TileY tile = snd tile"

definition TileXY :: "int \<Rightarrow> int \<Rightarrow> TileIndex" where
  "TileXY x y = (x, y)"

definition TILE_ADDXY :: "TileIndex \<Rightarrow> int \<Rightarrow> int \<Rightarrow> TileIndex" where
  "TILE_ADDXY tile dx dy = TileXY (TileX tile + dx) (TileY tile + dy)"

text \<open>
  The fields of \<open>_settings_game.station\<close> that the station code reads. The settings
  structure itself is declared outside the sources; all four are unsigned settings.
\<close>

record StationSettings =
  modified_catchment :: bool
  catchment_increase :: nat
  serve_neutral_industries :: bool
  station_spread :: nat

text \<open>
  A \<open>CommandCost\<close> either succeeded or carries the string of the error;
  \<open>return_cmd_error(s)\<close> returns the latter.
\<close>

datatype StringID = STR_ERROR_STATION_TOO_SPREAD_OUT

datatype CommandCost = CommandCost | CommandError StringID

fun Succeeded :: "CommandCost \<Rightarrow> bool" where
  "Succeeded CommandCost = True"
| "Succeeded (CommandError _) = False"

section \<open>StationRect\<close>

datatype StationRectMode = ADD_TEST | ADD_TRY | ADD_FORCE

record StationRect =
  left :: int
  top' :: int
  right :: int
  bottom :: int

definition MakeEmpty :: "StationRect" where
  "MakeEmpty = \<lparr>left = 0, top' = 0, right = 0, bottom = 0\<rparr>"

definition PtInExtendedRect :: "StationRect \<Rightarrow> int \<Rightarrow> int \<Rightarrow> int \<Rightarrow> bool" where
  "PtInExtendedRect r x y distance \<longleftrightarrow>
     left r - distance \<le> x \<and> x \<le> right r + distance \<and>
     top' r - distance \<le> y \<and> y \<le> bottom r + distance"

definition IsEmpty :: "StationRect \<Rightarrow> bool" where
  "IsEmpty r \<longleftrightarrow> left r = 0 \<or> left r > right r \<or> top' r > bottom r"

text \<open>
  \<open>BeforeAddTile\<close> returns the command result together with the rect after the call.
  A failed \<open>assert\<close> aborts the program: that outcome is \<open>None\<close>. The call
  \<open>PtInExtendedRect(x, y)\<close> of the source leaves the distance at its default, 0.
\<close>

definition BeforeAddTile ::
  "StationSettings \<Rightarrow> StationRect \<Rightarrow> TileIndex \<Rightarrow> StationRectMode
     \<Rightarrow> (CommandCost \<times> StationRect) option" where
  "BeforeAddTile s r tile mode =
     (let x = TileX tile; y = TileY tile in
      if IsEmpty r then
        (if mode \<noteq> ADD_TEST
         then Some (CommandCost, \<lparr>left = x, top' = y, right = x, bottom = y\<rparr>)
         else Some (CommandCost, r))
      else if \<not> PtInExtendedRect r x y 0 then
        (let new_rect = \<lparr>left = min x (left r), top' = min y (top' r),
                          right = max x (right r), bottom = max y (bottom r)\<rparr>;
             w = right new_rect - left new_rect + 1;
             h = bottom new_rect - top' new_rect + 1 in
         if mode \<noteq> ADD_FORCE \<and> (w > int (station_spread s) \<or> h > int (station_spread s)) then
           (if mode \<noteq> ADD_TRY
            then Some (CommandError STR_ERROR_STATION_TOO_SPREAD_OUT, r)
            else None)
         else if mode \<noteq> ADD_TEST then Some (CommandCost, new_rect)
         else Some (CommandCost, r))
      else Some (CommandCost, r))"

definition BeforeAddRect ::
  "StationSettings \<Rightarrow> StationRect \<Rightarrow> TileIndex \<Rightarrow> int \<Rightarrow> int \<Rightarrow> StationRectMode
     \<Rightarrow> (CommandCost \<times> StationRect) option" where
  "BeforeAddRect s r tile w h mode =
     (if mode = ADD_FORCE \<or> (w \<le> int (station_spread s) \<and> h \<le> int (station_spread s)) then
        (case BeforeAddTile s r tile mode of
           None \<Rightarrow> None
         | Some (ret, r1) \<Rightarrow>
             if Succeeded ret then BeforeAddTile s r1 (TILE_ADDXY tile (w - 1) (h - 1)) mode
             else Some (ret, r1))
      else Some (CommandCost, r))"

section \<open>The map array and tile areas\<close>

text \<open>
  Modelled from the spec: the map array and its accessors (\<open>IsTileType\<close>,
  \<open>GetStationIndex\<close>, \<open>GetStationType\<close>, \<open>GetTownIndex\<close>, \<open>GetIndustryIndex\<close>) are
  declared in headers that are not among the sources. The spec speaks of the
  classification of a tile (station, residential, industrial), of its functional station
  type and of the town, industry or station owning it; a tile of the map is the record of
  what the accessors return for it, and the map is a function from tile coordinates to
  such records.
\<close>

datatype TileType =
  MP_CLEAR | MP_RAILWAY | MP_ROAD | MP_HOUSE | MP_TREES | MP_STATION | MP_WATER | MP_VOID
  | MP_INDUSTRY | MP_TUNNELBRIDGE | MP_OBJECT

datatype StationType =
  STATION_RAIL | STATION_AIRPORT | STATION_TRUCK | STATION_BUS | STATION_OILRIG
  | STATION_DOCK | STATION_BUOY | STATION_WAYPOINT

type_synonym StationID = nat
type_synonym IndustryID = nat
type_synonym TownID = nat
type_synonym CargoID = nat

record Tile =
  tile_type :: TileType
  station_index :: StationID
  station_type :: StationType
  town_index :: TownID
  industry_index :: IndustryID

type_synonym TileMap = "TileIndex \<Rightarrow> Tile"

definition IsTileType :: "TileMap \<Rightarrow> TileIndex \<Rightarrow> TileType \<Rightarrow> bool" where
  "IsTileType m tile t \<longleftrightarrow> tile_type (m tile) = t"

definition GetStationIndex :: "TileMap \<Rightarrow> TileIndex \<Rightarrow> StationID" where
  "GetStationIndex m tile = station_index (m tile)"

definition GetStationType :: "TileMap \<Rightarrow> TileIndex \<Rightarrow> StationType" where
  "GetStationType m tile = station_type (m tile)"

definition GetTownIndex :: "TileMap \<Rightarrow> TileIndex \<Rightarrow> TownID" where
  "GetTownIndex m tile = town_index (m tile)"

definition GetIndustryIndex :: "TileMap \<Rightarrow> TileIndex \<Rightarrow> IndustryID" where
  "GetIndustryIndex m tile = industry_index (m tile)"

text \<open>
  Modelled from the spec: \<open>TileArea\<close> (its constructors, its iterator and \<open>Expand\<close>) is
  declared outside the sources. A tile area is an axis-aligned block given by its northern
  tile, its width and its height; iterating over it visits every tile of the block once,
  row by row. \<open>TileAreaCorners\<close> is the constructor from two corner tiles; every call of
  the station code that is reached with a non-empty rect passes the corners in order.
  \<open>Expand\<close> follows the spec's "axis-aligned square of side 2r+1 centered on the tile",
  cut off at the map's border in the way \<open>GetCatchmentRectUsingRadius\<close> of the source
  cuts its rectangle.
\<close>

record TileArea =
  ta_tile :: TileIndex
  ta_w :: int
  ta_h :: int

definition TileAreaCorners :: "TileIndex \<Rightarrow> TileIndex \<Rightarrow> TileArea" where
  "TileAreaCorners start end' =
     \<lparr>ta_tile = start, ta_w = TileX end' - TileX start + 1, ta_h = TileY end' - TileY start + 1\<rparr>"

definition tiles_of :: "TileArea \<Rightarrow> TileIndex list" where
  "tiles_of ta =
     concat (map (\<lambda>y. map (\<lambda>x. TileXY x y) [TileX (ta_tile ta) .. TileX (ta_tile ta) + ta_w ta - 1])
                 [TileY (ta_tile ta) .. TileY (ta_tile ta) + ta_h ta - 1])"

definition Expand :: "int \<Rightarrow> int \<Rightarrow> TileArea \<Rightarrow> int \<Rightarrow> TileArea" where
  "Expand map_size_x map_size_y ta rad =
     (let x = TileX (ta_tile ta); y = TileY (ta_tile ta);
          sx = max (x - rad) 0; sy = max (y - rad) 0;
          ex = min (x + ta_w ta + rad) map_size_x; ey = min (y + ta_h ta + rad) map_size_y
      in \<lparr>ta_tile = TileXY sx sy, ta_w = ex - sx, ta_h = ey - sy\<rparr>)"

section \<open>Shrinking the rect after a removal\<close>

fun scan_tiles :: "TileMap \<Rightarrow> StationID \<Rightarrow> TileIndex list \<Rightarrow> bool" where
  "scan_tiles m st_id [] = False"
| "scan_tiles m st_id (tile # rest) =
     (if (IsTileType m tile MP_STATION \<or> IsTileType m tile MP_TUNNELBRIDGE)
         \<and> GetStationIndex m tile = st_id
      then True else scan_tiles m st_id rest)"

definition ScanForStationTiles :: "TileMap \<Rightarrow> StationID \<Rightarrow> int \<Rightarrow> int \<Rightarrow> int \<Rightarrow> int \<Rightarrow> bool" where
  "ScanForStationTiles m st_id left_a top_a right_a bottom_a =
     scan_tiles m st_id (tiles_of (TileAreaCorners (TileXY left_a top_a) (TileXY right_a bottom_a)))"

text \<open>
  One pass through the body of the \<open>for (;;)\<close> loop of \<open>AfterRemoveTile\<close>: \<open>Inl\<close> is a
  return from the function (the result and the rect), \<open>Inr\<close> the state at the start of the
  next pass.
\<close>

definition AfterRemoveTile_body ::
  "TileMap \<Rightarrow> StationID \<Rightarrow> int \<Rightarrow> int \<Rightarrow> StationRect
     \<Rightarrow> (bool \<times> StationRect) + (int \<times> int \<times> StationRect)" where
  "AfterRemoveTile_body m st_index x y r =
     (let left_edge = (x = left r);
          right_edge = (x = right r);
          top_edge = (y = top' r);
          bottom_edge = (y = bottom r);
          reduce_x = ((left_edge \<or> right_edge)
                      \<and> \<not> ScanForStationTiles m st_index x (top' r) x (bottom r));
          reduce_y = ((top_edge \<or> bottom_edge)
                      \<and> \<not> ScanForStationTiles m st_index (left r) y (right r) y)
      in if \<not> (reduce_x \<or> reduce_y) then Inl (False, r)
         else
           (let r1 = (if reduce_x then (if left_edge then r\<lparr>left := x + 1\<rparr> else r\<lparr>right := x - 1\<rparr>)
                      else r);
                x1 = (if reduce_x then (if left_edge then x + 1 else x - 1) else x);
                r2 = (if reduce_y then (if top_edge then r1\<lparr>top' := y + 1\<rparr> else r1\<lparr>bottom := y - 1\<rparr>)
                      else r1);
                y1 = (if reduce_y then (if top_edge then y + 1 else y - 1) else y)
            in if left r2 > right r2 \<or> top' r2 > bottom r2 then Inl (True, MakeEmpty)
               else Inr (x1, y1, r2)))"

definition rect_span :: "StationRect \<Rightarrow> nat" where
  "rect_span r = nat (right r - left r) + nat (bottom r - top' r)"

lemma AfterRemoveTile_body_decreases:
  assumes "AfterRemoveTile_body m st_index x y r = Inr (x1, y1, r2)"
  shows "rect_span r2 < rect_span r"
  using assms
  by (auto simp: AfterRemoveTile_body_def Let_def rect_span_def split: if_splits)

function AfterRemoveTile_loop ::
  "TileMap \<Rightarrow> StationID \<Rightarrow> int \<Rightarrow> int \<Rightarrow> StationRect \<Rightarrow> bool \<times> StationRect" where
  "AfterRemoveTile_loop m st_index x y r =
     (case AfterRemoveTile_body m st_index x y r of
        Inl res \<Rightarrow> res
      | Inr (x1, y1, r2) \<Rightarrow> AfterRemoveTile_loop m st_index x1 y1 r2)"
  by pat_completeness auto
termination
  by (relation "measure (\<lambda>(m, st_index, x, y, r). rect_span r)")
     (auto dest: AfterRemoveTile_body_decreases)

definition AfterRemoveTile :: "TileMap \<Rightarrow> StationID \<Rightarrow> StationRect \<Rightarrow> TileIndex \<Rightarrow> bool \<times> StationRect" where
  "AfterRemoveTile m st_index r tile = AfterRemoveTile_loop m st_index (TileX tile) (TileY tile) r"

section \<open>Stations, industries, towns\<close>

text \<open>
  Modelled from the spec: the catchment-area constants \<open>CA_BUS\<close>, \<open>CA_TRUCK\<close>,
  \<open>CA_TRAIN\<close>, \<open>CA_DOCK\<close> and \<open>CA_UNMODIFIED\<close> are declared outside the sources and the
  spec gives no values for them, so they are parameters of the model; \<open>CA_NONE\<close> is the
  radius of "zero for waypoint/buoy types" of the spec.
\<close>

record CatchmentArea =
  CA_BUS :: nat
  CA_TRUCK :: nat
  CA_TRAIN :: nat
  CA_DOCK :: nat
  CA_UNMODIFIED :: nat

definition CA_NONE :: nat where
  "CA_NONE = 0"

text \<open>
  Modelled from the spec: \<open>CT_INVALID\<close> marks an unused slot of an industry's list of
  accepted cargo kinds ("an industry that accepts no cargo kind is never added"); only its
  being one distinguished \<open>CargoID\<close> matters.
\<close>

definition CT_INVALID :: CargoID where
  "CT_INVALID = 255"

text \<open>
  Modelled from the spec: \<open>BitmapTileArea\<close> is declared outside the sources. The spec
  describes the catchment set as "a sparse bitmap over a bounded tile region, one bit per
  tile", in which setting a bit twice is free. The bitmap is represented by the list,
  without repetitions, of the tiles whose bit is set: \<open>Reset\<close> and both forms of
  \<open>Initialize\<close> give the bitmap with no bit set, \<open>SetTile\<close> sets one bit, and the
  bitmap's iterator visits the tiles of the list.
\<close>

type_synonym BitmapTileArea = "TileIndex list"

definition Reset :: BitmapTileArea where
  "Reset = []"

definition Initialize :: BitmapTileArea where
  "Initialize = []"

definition SetTile :: "TileIndex \<Rightarrow> BitmapTileArea \<Rightarrow> BitmapTileArea" where
  "SetTile tile bitmap = List.insert tile bitmap"

definition HasTile :: "BitmapTileArea \<Rightarrow> TileIndex \<Rightarrow> bool" where
  "HasTile bitmap tile \<longleftrightarrow> tile \<in> set bitmap"

text \<open>
  The fields of \<open>Station\<close>, \<open>Industry\<close> and \<open>Town\<close> that the catchment code reads or
  writes. A pointer to a pool item is the item's index in its pool; \<open>industry\<close> and
  \<open>neutral_station\<close> are \<open>None\<close> for a null pointer. \<open>airport_catchment\<close> stands for
  \<open>airport.GetSpec()->catchment\<close>.
\<close>

record Station =
  rect :: StationRect
  industry :: "IndustryID option"
  airport_catchment :: nat
  industries_near :: "IndustryID set"
  catchment_tiles :: BitmapTileArea
  station_tiles :: nat

record Industry =
  location :: TileArea
  accepts_cargo :: "CargoID list"
  neutral_station :: "StationID option"
  stations_near :: "StationID set"

record Town =
  town_stations_near :: "StationID set"

text \<open>
  The world: the map array with its size, and the three pools. Every index denotes an item
  of its pool, as every pointer the source dereferences does.
\<close>

record World =
  map_array :: TileMap
  MapSizeX :: int
  MapSizeY :: int
  stations :: "StationID \<Rightarrow> Station"
  industries :: "IndustryID \<Rightarrow> Industry"
  towns :: "TownID \<Rightarrow> Town"

definition update_station :: "StationID \<Rightarrow> (Station \<Rightarrow> Station) \<Rightarrow> World \<Rightarrow> World" where
  "update_station st f w = w\<lparr>stations := (stations w)(st := f (stations w st))\<rparr>"

definition update_industry :: "IndustryID \<Rightarrow> (Industry \<Rightarrow> Industry) \<Rightarrow> World \<Rightarrow> World" where
  "update_industry i f w = w\<lparr>industries := (industries w)(i := f (industries w i))\<rparr>"

definition update_town :: "TownID \<Rightarrow> (Town \<Rightarrow> Town) \<Rightarrow> World \<Rightarrow> World" where
  "update_town t f w = w\<lparr>towns := (towns w)(t := f (towns w t))\<rparr>"

section \<open>Catchment\<close>

text \<open>
  \<open>GetTileCatchmentRadius\<close>: \<open>None\<close> is the failed \<open>assert(IsTileType(tile, MP_STATION))\<close>.
  All eight station types have a case of their own, so the \<open>default: NOT_REACHED()\<close> of
  the first switch has no value to stand for.
\<close>

definition GetTileCatchmentRadius ::
  "CatchmentArea \<Rightarrow> StationSettings \<Rightarrow> TileMap \<Rightarrow> TileIndex \<Rightarrow> Station \<Rightarrow> nat option" where
  "GetTileCatchmentRadius ca s m tile st =
     (if \<not> IsTileType m tile MP_STATION then None
      else
        (let inc = catchment_increase s in
         if modified_catchment s then
           (case GetStationType m tile of
              STATION_RAIL \<Rightarrow> Some (CA_TRAIN ca + inc)
            | STATION_OILRIG \<Rightarrow> Some (CA_UNMODIFIED ca + inc)
            | STATION_AIRPORT \<Rightarrow> Some (airport_catchment st + inc)
            | STATION_TRUCK \<Rightarrow> Some (CA_TRUCK ca + inc)
            | STATION_BUS \<Rightarrow> Some (CA_BUS ca + inc)
            | STATION_DOCK \<Rightarrow> Some (CA_DOCK ca + inc)
            | STATION_BUOY \<Rightarrow> Some CA_NONE
            | STATION_WAYPOINT \<Rightarrow> Some CA_NONE)
         else
           (case GetStationType m tile of
              STATION_BUOY \<Rightarrow> Some CA_NONE
            | STATION_WAYPOINT \<Rightarrow> Some CA_NONE
            | _ \<Rightarrow> Some (CA_UNMODIFIED ca + inc))))"

fun first_accepted :: "CargoID list \<Rightarrow> nat" where
  "first_accepted [] = 0"
| "first_accepted (c # cs) = (if c \<noteq> CT_INVALID then 0 else Suc (first_accepted cs))"

definition AddIndustryToDeliver :: "StationID \<Rightarrow> IndustryID \<Rightarrow> World \<Rightarrow> World" where
  "AddIndustryToDeliver this ind w =
     (if ind \<in> industries_near (stations w this) then w
      else
        (let cargo_index = first_accepted (accepts_cargo (industries w ind)) in
         if cargo_index \<ge> length (accepts_cargo (industries w ind)) then w
         else update_station this (\<lambda>st. st\<lparr>industries_near := insert ind (industries_near st)\<rparr>) w))"

definition RemoveFromAllNearbyLists :: "StationID \<Rightarrow> World \<Rightarrow> World" where
  "RemoveFromAllNearbyLists this w =
     w\<lparr>towns := (\<lambda>t. (towns w t)\<lparr>town_stations_near := town_stations_near (towns w t) - {this}\<rparr>),
       industries := (\<lambda>i. (industries w i)\<lparr>stations_near := stations_near (industries w i) - {this}\<rparr>)\<rparr>"

text \<open>The loop over the industry's location that sets the tiles still belonging to it.\<close>

fun industry_tiles_loop :: "TileMap \<Rightarrow> IndustryID \<Rightarrow> TileIndex list \<Rightarrow> BitmapTileArea \<Rightarrow> BitmapTileArea" where
  "industry_tiles_loop m ind [] bitmap = bitmap"
| "industry_tiles_loop m ind (tile # rest) bitmap =
     (if IsTileType m tile MP_INDUSTRY \<and> GetIndustryIndex m tile = ind
      then industry_tiles_loop m ind rest (SetTile tile bitmap)
      else industry_tiles_loop m ind rest bitmap)"

text \<open>The loop that counts the station's own tiles in its rect (neutral station).\<close>

fun count_tiles_loop :: "TileMap \<Rightarrow> StationID \<Rightarrow> TileIndex list \<Rightarrow> nat \<Rightarrow> nat" where
  "count_tiles_loop m this [] n = n"
| "count_tiles_loop m this (tile # rest) n =
     (if \<not> IsTileType m tile MP_STATION \<or> GetStationIndex m tile \<noteq> this
      then count_tiles_loop m this rest n
      else count_tiles_loop m this rest (n + 1))"

text \<open>
  The loop that counts the station's own tiles and sets the catchment of each (general
  case); it works on the station's record.
\<close>

fun station_tiles_loop ::
  "CatchmentArea \<Rightarrow> StationSettings \<Rightarrow> World \<Rightarrow> StationID \<Rightarrow> TileIndex list \<Rightarrow> Station
     \<Rightarrow> Station option" where
  "station_tiles_loop ca s w this [] st = Some st"
| "station_tiles_loop ca s w this (tile # rest) st =
     (if \<not> IsTileType (map_array w) tile MP_STATION \<or> GetStationIndex (map_array w) tile \<noteq> this
      then station_tiles_loop ca s w this rest st
      else
        (let st1 = st\<lparr>station_tiles := station_tiles st + 1\<rparr> in
         case GetTileCatchmentRadius ca s (map_array w) tile st1 of
           None \<Rightarrow> None
         | Some r \<Rightarrow>
             if r = CA_NONE then station_tiles_loop ca s w this rest st1
             else
               (let ta2 = Expand (MapSizeX w) (MapSizeY w)
                            \<lparr>ta_tile = tile, ta_w = 1, ta_h = 1\<rparr> (int r)
                in station_tiles_loop ca s w this rest
                     (st1\<lparr>catchment_tiles := fold SetTile (tiles_of ta2) (catchment_tiles st1)\<rparr>))))"

text \<open>The search of the catchment tiles for towns and industries.\<close>

fun nearby_loop :: "StationSettings \<Rightarrow> StationID \<Rightarrow> TileIndex list \<Rightarrow> World \<Rightarrow> World" where
  "nearby_loop s this [] w = w"
| "nearby_loop s this (tile # rest) w =
     (let w1 = (if IsTileType (map_array w) tile MP_HOUSE
                then update_town (GetTownIndex (map_array w) tile)
                       (\<lambda>t. t\<lparr>town_stations_near := insert this (town_stations_near t)\<rparr>) w
                else w)
      in if IsTileType (map_array w1) tile MP_INDUSTRY then
           (let i = GetIndustryIndex (map_array w1) tile in
            if \<not> serve_neutral_industries s \<and> neutral_station (industries w1 i) \<noteq> None
            then nearby_loop s this rest w1
            else nearby_loop s this rest
                   (AddIndustryToDeliver this i
                      (update_industry i (\<lambda>ind. ind\<lparr>stations_near := insert this (stations_near ind)\<rparr>) w1)))
         else nearby_loop s this rest w1)"

text \<open>The branch of \<open>RecomputeCatchment\<close> for a station associated with an industry.\<close>

definition RecomputeCatchment_neutral :: "StationID \<Rightarrow> IndustryID \<Rightarrow> World \<Rightarrow> World" where
  "RecomputeCatchment_neutral this ind w =
     (let w1 = update_station this
                 (\<lambda>st. st\<lparr>catchment_tiles :=
                    industry_tiles_loop (map_array w) ind (tiles_of (location (industries w ind)))
                      Initialize\<rparr>) w;
          w2 = w1\<lparr>stations := (\<lambda>st. if st \<in> stations_near (industries w1 ind)
                                      then (stations w1 st)\<lparr>industries_near :=
                                             industries_near (stations w1 st) - {ind}\<rparr>
                                      else stations w1 st)\<rparr>;
          w3 = update_industry ind (\<lambda>i. i\<lparr>stations_near := {}\<rparr>) w2;
          w4 = update_industry ind (\<lambda>i. i\<lparr>stations_near := insert this (stations_near i)\<rparr>) w3;
          w5 = update_station this (\<lambda>st. st\<lparr>industries_near := insert ind (industries_near st)\<rparr>) w4;
          r = rect (stations w5 this);
          ta = TileAreaCorners (TileXY (left r) (top' r)) (TileXY (right r) (bottom r))
      in update_station this
           (\<lambda>st. st\<lparr>station_tiles := count_tiles_loop (map_array w5) this (tiles_of ta) 0\<rparr>) w5)"

text \<open>The general branch: the union of the squares around the station's tiles.\<close>

definition RecomputeCatchment_general ::
  "CatchmentArea \<Rightarrow> StationSettings \<Rightarrow> StationID \<Rightarrow> World \<Rightarrow> World option" where
  "RecomputeCatchment_general ca s this w =
     (let r = rect (stations w this);
          ta = TileAreaCorners (TileXY (left r) (top' r)) (TileXY (right r) (bottom r))
      in case station_tiles_loop ca s w this (tiles_of ta)
                ((stations w this)\<lparr>catchment_tiles := Initialize, station_tiles := 0\<rparr>) of
           None \<Rightarrow> None
         | Some st \<Rightarrow>
             (let w1 = update_station this (\<lambda>_. st) w
              in Some (nearby_loop s this (catchment_tiles st) w1)))"

definition RecomputeCatchment ::
  "CatchmentArea \<Rightarrow> StationSettings \<Rightarrow> StationID \<Rightarrow> bool \<Rightarrow> World \<Rightarrow> World option" where
  "RecomputeCatchment ca s this no_clear_nearby_lists w =
     (let w1 = update_station this (\<lambda>st. st\<lparr>industries_near := {}\<rparr>) w;
          w2 = (if \<not> no_clear_nearby_lists then RemoveFromAllNearbyLists this w1 else w1)
      in if IsEmpty (rect (stations w2 this)) then
           Some (update_station this (\<lambda>st. st\<lparr>catchment_tiles := Reset\<rparr>) w2)
         else
           (case industry (stations w2 this) of
              Some ind \<Rightarrow>
                if \<not> serve_neutral_industries s then Some (RecomputeCatchment_neutral this ind w2)
                else RecomputeCatchment_general ca s this w2
            | None \<Rightarrow> RecomputeCatchment_general ca s this w2))"

section \<open>Tearing a station down: flows and link graphs\<close>

text \<open>
  Modelled from the spec: the flow-routing subsystem (\<open>LinkGraph\<close>, \<open>FlowStatMap\<close>,
  \<open>LinkGraphSchedule\<close>, \<open>RerouteCargo\<close>) is declared outside the sources; the destructor
  of \<open>Station\<close> only calls it. From the spec: a flow-graph node is a per-station,
  per-cargo routing vertex of a connectivity graph; the core may "request node removal",
  "delete that flow", "drop the plain flow-table entry for this station" and have an empty
  graph "unqueued from any scheduled processing and disposed".
  \<^item> A link graph is the list of its nodes; the index of a node is its \<open>NodeID\<close>. A node
    records its station and, for every node of the graph, the date of the last update of
    the edge to it (\<open>INVALID_DATE\<close> when there is no up-to-date record).
  \<^item> \<open>RemoveNode\<close> takes the node with the given index out of the graph; the nodes after
    it and the edges to them move down by one.
  \<^item> A flow table maps an origin station to the stations its flow is sent via.
    \<open>erase\<close> drops the entry of an origin; \<open>DeleteFlows\<close> takes a station out of every
    entry's via stations and drops an entry left without any.
  \<^item> The pool of link graphs is a partial map (\<open>LinkGraph::GetIfValid\<close> is the lookup);
    the schedule is the list of the queued graphs.
  \<open>RerouteCargo\<close> moves cargo that is in flight; cargo is not part of this state, so the
  call leaves it as it is.
\<close>

type_synonym NodeID = nat

type_synonym LinkGraphID = nat

type_synonym Date = int

definition INVALID_DATE :: Date where
  "INVALID_DATE = - 1"

type_synonym FlowStatMap = "StationID \<rightharpoonup> StationID set"

definition erase :: "StationID \<Rightarrow> FlowStatMap \<Rightarrow> FlowStatMap" where
  "erase origin fl = fl(origin := None)"

definition DeleteFlows :: "StationID \<Rightarrow> FlowStatMap \<Rightarrow> FlowStatMap" where
  "DeleteFlows via fl =
     (\<lambda>origin. case fl origin of
                  None \<Rightarrow> None
                | Some shares \<Rightarrow> if shares - {via} = {} then None else Some (shares - {via}))"

record Node =
  node_station :: StationID
  LastUpdate :: "NodeID \<Rightarrow> Date"

type_synonym LinkGraph = "Node list"

definition Size :: "LinkGraph \<Rightarrow> nat" where
  "Size lg = length lg"

definition RemoveNode :: "NodeID \<Rightarrow> LinkGraph \<Rightarrow> LinkGraph" where
  "RemoveNode node_id lg =
     map (\<lambda>n. n\<lparr>LastUpdate := (\<lambda>to. LastUpdate n (if to < node_id then to else to + 1))\<rparr>)
         (take node_id lg @ drop (Suc node_id) lg)"

record GoodsEntry =
  link_graph :: LinkGraphID
  node :: NodeID
  flows :: FlowStatMap

record LinkState =
  goods :: "StationID \<Rightarrow> CargoID \<Rightarrow> GoodsEntry"
  link_graphs :: "LinkGraphID \<rightharpoonup> LinkGraph"
  schedule :: "LinkGraphID list"

definition Unqueue :: "LinkGraphID \<Rightarrow> LinkGraphID list \<Rightarrow> LinkGraphID list" where
  "Unqueue lg queue = removeAll lg queue"

definition update_flows :: "StationID \<Rightarrow> CargoID \<Rightarrow> (FlowStatMap \<Rightarrow> FlowStatMap) \<Rightarrow> LinkState \<Rightarrow> LinkState" where
  "update_flows st c f ls =
     ls\<lparr>goods := (goods ls)(st := (goods ls st)(c := (goods ls st c)\<lparr>flows := f (flows (goods ls st c))\<rparr>))\<rparr>"

text \<open>
  The loop over the nodes of the graph in the destructor: every station of the graph
  forgets the flows that start at \<open>this\<close>, and, where its edge to the node of \<open>this\<close> is up to
  date, the flows that go via \<open>this\<close>.
\<close>

fun node_loop :: "StationID \<Rightarrow> CargoID \<Rightarrow> LinkGraph \<Rightarrow> NodeID list \<Rightarrow> LinkState \<Rightarrow> LinkState" where
  "node_loop this c lg [] ls = ls"
| "node_loop this c lg (n # rest) ls =
     (let st = node_station (lg ! n);
          ls1 = update_flows st c (erase this) ls
      in if LastUpdate (lg ! n) (node (goods ls1 this c)) \<noteq> INVALID_DATE
         then node_loop this c lg rest (update_flows st c (DeleteFlows this) ls1)
         else node_loop this c lg rest ls1)"

text \<open>One pass of the loop over the cargo kinds.\<close>

definition destroy_cargo :: "StationID \<Rightarrow> CargoID \<Rightarrow> LinkState \<Rightarrow> LinkState" where
  "destroy_cargo this c ls =
     (case link_graphs ls (link_graph (goods ls this c)) of
        None \<Rightarrow> ls
      | Some lg \<Rightarrow>
          (let ls1 = node_loop this c lg [0 ..< Size lg] ls;
               lg1 = RemoveNode (node (goods ls1 this c)) lg
           in if Size lg1 = 0
              then ls1\<lparr>link_graphs := (link_graphs ls1)(link_graph (goods ls1 this c) := None),
                      schedule := Unqueue (link_graph (goods ls1 this c)) (schedule ls1)\<rparr>
              else ls1\<lparr>link_graphs := (link_graphs ls1)(link_graph (goods ls1 this c) \<mapsto> lg1)\<rparr>))"

text \<open>
  The destructor, on the state modelled here: nothing when the whole pool is being cleaned;
  otherwise the loop over the cargo kinds and \<open>RemoveFromAllNearbyLists\<close>. Vehicles,
  windows, orders, news, cargo packets and the k-d trees are outside this state. The number
  of cargo kinds, \<open>NUM_CARGO\<close>, is declared outside the sources and is a parameter.
\<close>

definition Station_destructor ::
  "bool \<Rightarrow> nat \<Rightarrow> StationID \<Rightarrow> World \<times> LinkState \<Rightarrow> World \<times> LinkState" where
  "Station_destructor CleaningPool NUM_CARGO this wl =
     (if CleaningPool then wl
      else (RemoveFromAllNearbyLists this (fst wl),
            fold (destroy_cargo this) [0 ..< NUM_CARGO] (snd wl)))"

section \<open>The tile-placement interface of a station's rect\<close>

text \<open>
  A tile belongs to a station when \<open>ScanForStationTiles\<close> counts it for the station.
\<close>

definition belongs_to :: "TileMap \<Rightarrow> StationID \<Rightarrow> TileIndex \<Rightarrow> bool" where
  "belongs_to m st_id tile \<longleftrightarrow>
     (IsTileType m tile MP_STATION \<or> IsTileType m tile MP_TUNNELBRIDGE) \<and> GetStationIndex m tile = st_id"

text \<open>
  The states of a map and of one station's rect that the tile-placement logic reaches
  through \<open>BeforeAddTile\<close> and \<open>AfterRemoveTile\<close>: at first the station has no tile and its
  rect is the one the constructor makes; a test leaves the map alone; a refused placement
  leaves the map alone; an accepted placement (Try or Force) puts a tile of the station on
  the map at a tile whose X coordinate is positive; a removal takes a tile of the station
  off the map and then calls \<open>AfterRemoveTile\<close>; anything else on the map may change as
  long as it does not concern the station.
\<close>

inductive reachable :: "StationSettings \<Rightarrow> StationID \<Rightarrow> TileMap \<times> StationRect \<Rightarrow> bool"
  for s :: StationSettings and st :: StationID where
  initial: "\<forall>tile. \<not> belongs_to m st tile \<Longrightarrow> reachable s st (m, MakeEmpty)"
| test: "reachable s st (m, r) \<Longrightarrow> BeforeAddTile s r tile ADD_TEST = Some (ret, r')
         \<Longrightarrow> reachable s st (m, r')"
| refused: "reachable s st (m, r) \<Longrightarrow> BeforeAddTile s r tile mode = Some (CommandError e, r')
         \<Longrightarrow> reachable s st (m, r')"
| added: "reachable s st (m, r) \<Longrightarrow> mode \<noteq> ADD_TEST \<Longrightarrow> 0 < TileX tile
         \<Longrightarrow> BeforeAddTile s r tile mode = Some (CommandCost, r')
         \<Longrightarrow> belongs_to (m(tile := t)) st tile
         \<Longrightarrow> reachable s st (m(tile := t), r')"
| removed: "reachable s st (m, r) \<Longrightarrow> belongs_to m st tile
         \<Longrightarrow> \<not> belongs_to (m(tile := t)) st tile
         \<Longrightarrow> AfterRemoveTile (m(tile := t)) st r tile = (e, r')
         \<Longrightarrow> reachable s st (m(tile := t), r')"
| elsewhere: "reachable s st (m, r) \<Longrightarrow> \<not> belongs_to m st tile
         \<Longrightarrow> \<not> belongs_to (m(tile := t)) st tile
         \<Longrightarrow> reachable s st (m(tile := t), r)"

section \<open>Notions used in the statements and proofs\<close>

text \<open>The tiles a station owns, and their coordinates on each axis.\<close>

definition owned :: "TileMap \<Rightarrow> StationID \<Rightarrow> TileIndex set" where
  "owned m st = {tile. belongs_to m st tile}"

definition occ_x :: "TileMap \<Rightarrow> StationID \<Rightarrow> int set" where
  "occ_x m st = fst ` owned m st"

definition occ_y :: "TileMap \<Rightarrow> StationID \<Rightarrow> int set" where
  "occ_y m st = snd ` owned m st"

text \<open>
  One axis of the shrinking loop: the occupied coordinates \<open>C\<close>, the bounds and the
  coordinate \<open>p\<close> of the removed tile.
\<close>

definition axis_inv :: "int set \<Rightarrow> int \<Rightarrow> int \<Rightarrow> int \<Rightarrow> bool" where
  "axis_inv C lo hi p \<longleftrightarrow> (\<forall>c\<in>C. lo \<le> c \<and> c \<le> hi) \<and> (p = lo \<or> lo \<in> C) \<and> (p = hi \<or> hi \<in> C)"

definition axis_reduce :: "int set \<Rightarrow> int \<Rightarrow> int \<Rightarrow> int \<Rightarrow> bool" where
  "axis_reduce C lo hi p \<longleftrightarrow> (p = lo \<or> p = hi) \<and> p \<notin> C"

definition axis_step :: "int set \<Rightarrow> int \<Rightarrow> int \<Rightarrow> int \<Rightarrow> int \<times> int \<times> int" where
  "axis_step C lo hi p =
     (if axis_reduce C lo hi p then (if p = lo then (p + 1, hi, p + 1) else (lo, p - 1, p - 1))
      else (lo, hi, p))"

definition axis_tight :: "int set \<Rightarrow> int \<Rightarrow> int \<Rightarrow> bool" where
  "axis_tight C lo hi \<longleftrightarrow> (\<forall>c\<in>C. lo \<le> c \<and> c \<le> hi) \<and> lo \<in> C \<and> hi \<in> C"

definition loop_inv :: "TileMap \<Rightarrow> StationID \<Rightarrow> int \<Rightarrow> int \<Rightarrow> StationRect \<Rightarrow> bool" where
  "loop_inv m st x y r \<longleftrightarrow>
     axis_inv (occ_x m st) (left r) (right r) x \<and> axis_inv (occ_y m st) (top' r) (bottom r) y"

definition tight :: "TileMap \<Rightarrow> StationID \<Rightarrow> StationRect \<Rightarrow> bool" where
  "tight m st r \<longleftrightarrow>
     axis_tight (occ_x m st) (left r) (right r) \<and> axis_tight (occ_y m st) (top' r) (bottom r)"

definition rect_inv :: "TileMap \<Rightarrow> StationID \<Rightarrow> StationRect \<Rightarrow> bool" where
  "rect_inv m st r \<longleftrightarrow>
     (\<forall>tile\<in>owned m st. 0 < TileX tile)
     \<and> (if owned m st = {} then r = MakeEmpty else tight m st r)"

text \<open>
  The radius of a station tile in the words of the spec: zero for waypoint and buoy tiles;
  otherwise the radius of the tile's type (from the airport's specification for an airport
  tile) when radii are modified per type, or the one flat unmodified radius when they are
  not, plus the global bonus.
\<close>

definition type_radius :: "CatchmentArea \<Rightarrow> StationType \<Rightarrow> nat \<Rightarrow> nat" where
  "type_radius ca t airport =
     (case t of
        STATION_RAIL \<Rightarrow> CA_TRAIN ca
      | STATION_AIRPORT \<Rightarrow> airport
      | STATION_TRUCK \<Rightarrow> CA_TRUCK ca
      | STATION_BUS \<Rightarrow> CA_BUS ca
      | STATION_OILRIG \<Rightarrow> CA_UNMODIFIED ca
      | STATION_DOCK \<Rightarrow> CA_DOCK ca
      | STATION_BUOY \<Rightarrow> 0
      | STATION_WAYPOINT \<Rightarrow> 0)"

definition spec_radius :: "CatchmentArea \<Rightarrow> StationSettings \<Rightarrow> StationType \<Rightarrow> nat \<Rightarrow> nat" where
  "spec_radius ca s t airport =
     (if t = STATION_BUOY \<or> t = STATION_WAYPOINT then 0
      else (if modified_catchment s then type_radius ca t airport else CA_UNMODIFIED ca)
           + catchment_increase s)"

text \<open>
  An industry accepts cargo when one slot of its list holds a cargo kind; the relation
  between a station and an industry is symmetric when each is in the other's set or neither
  is.
\<close>

definition accepts :: "World \<Rightarrow> IndustryID \<Rightarrow> bool" where
  "accepts w i \<longleftrightarrow> (\<exists>c\<in>set (accepts_cargo (industries w i)). c \<noteq> CT_INVALID)"

definition symmetric_on :: "World \<Rightarrow> StationID \<Rightarrow> IndustryID \<Rightarrow> bool" where
  "symmetric_on w st i \<longleftrightarrow>
     (st \<in> stations_near (industries w i) \<longleftrightarrow> i \<in> industries_near (stations w st))"

text \<open>A flow table holds no reference to a station: neither as origin nor as via station.\<close>

definition no_reference :: "StationID \<Rightarrow> FlowStatMap \<Rightarrow> bool" where
  "no_reference st fl \<longleftrightarrow> fl st = None \<and> (\<forall>origin shares. fl origin = Some shares \<longrightarrow> st \<notin> shares)"

text \<open>Names for parts of \<open>RecomputeCatchment\<close> that the proofs speak about.\<close>

definition ind_tile :: "TileMap \<Rightarrow> TileIndex \<Rightarrow> IndustryID \<Rightarrow> bool" where
  "ind_tile m tile i \<longleftrightarrow> IsTileType m tile MP_INDUSTRY \<and> GetIndustryIndex m tile = i"

definition skipped :: "StationSettings \<Rightarrow> World \<Rightarrow> IndustryID \<Rightarrow> bool" where
  "skipped s w i \<longleftrightarrow> \<not> serve_neutral_industries s \<and> neutral_station (industries w i) \<noteq> None"

definition own_tile :: "TileMap \<Rightarrow> StationID \<Rightarrow> TileIndex \<Rightarrow> bool" where
  "own_tile m this tile \<longleftrightarrow> IsTileType m tile MP_STATION \<and> GetStationIndex m tile = this"

definition nearby_step :: "StationSettings \<Rightarrow> StationID \<Rightarrow> TileIndex \<Rightarrow> World \<Rightarrow> World" where
  "nearby_step s this tile w =
     (let w1 = (if IsTileType (map_array w) tile MP_HOUSE
                then update_town (GetTownIndex (map_array w) tile)
                       (\<lambda>t. t\<lparr>town_stations_near := insert this (town_stations_near t)\<rparr>) w
                else w);
          i = GetIndustryIndex (map_array w) tile
      in if IsTileType (map_array w) tile MP_INDUSTRY \<and> \<not> skipped s w i
         then AddIndustryToDeliver this i
                (update_industry i (\<lambda>ind. ind\<lparr>stations_near := insert this (stations_near ind)\<rparr>) w1)
         else w1)"

definition square :: "World \<Rightarrow> TileIndex \<Rightarrow> nat \<Rightarrow> TileIndex list" where
  "square w tile r = tiles_of (Expand (MapSizeX w) (MapSizeY w) \<lparr>ta_tile = tile, ta_w = 1, ta_h = 1\<rparr> (int r))"

definition catchment_step ::
  "CatchmentArea \<Rightarrow> StationSettings \<Rightarrow> World \<Rightarrow> StationID \<Rightarrow> nat \<Rightarrow> TileIndex
     \<Rightarrow> BitmapTileArea \<Rightarrow> BitmapTileArea" where
  "catchment_step ca s w this airport tile bitmap =
     (if own_tile (map_array w) this tile
         \<and> spec_radius ca s (GetStationType (map_array w) tile) airport \<noteq> 0
      then fold SetTile (square w tile (spec_radius ca s (GetStationType (map_array w) tile) airport)) bitmap
      else bitmap)"

definition rect_tiles :: "StationRect \<Rightarrow> TileIndex list" where
  "rect_tiles r = tiles_of (TileAreaCorners (TileXY (left r) (top' r)) (TileXY (right r) (bottom r)))"

definition general_catchment ::
  "CatchmentArea \<Rightarrow> StationSettings \<Rightarrow> StationID \<Rightarrow> World \<Rightarrow> BitmapTileArea" where
  "general_catchment ca s this w =
     fold (catchment_step ca s w this (airport_catchment (stations w this)))
       (rect_tiles (rect (stations w this))) []"

definition industry_footprint :: "World \<Rightarrow> IndustryID \<Rightarrow> BitmapTileArea" where
  "industry_footprint w ind =
     industry_tiles_loop (map_array w) ind (tiles_of (location (industries w ind))) []"

definition own_tile_count :: "StationID \<Rightarrow> World \<Rightarrow> nat" where
  "own_tile_count this w =
     length (filter (own_tile (map_array w) this) (rect_tiles (rect (stations w this))))"

definition neutral_link :: "StationSettings \<Rightarrow> StationID \<Rightarrow> World \<Rightarrow> IndustryID option" where
  "neutral_link s this w = (if serve_neutral_industries s then None else industry (stations w this))"

definition cleared :: "StationID \<Rightarrow> bool \<Rightarrow> World \<Rightarrow> World" where
  "cleared this no_clear_nearby_lists w =
     (let w1 = update_station this (\<lambda>st. st\<lparr>industries_near := {}\<rparr>) w
      in if \<not> no_clear_nearby_lists then RemoveFromAllNearbyLists this w1 else w1)"

definition same_inputs :: "StationID \<Rightarrow> World \<Rightarrow> World \<Rightarrow> bool" where
  "same_inputs this w w' \<longleftrightarrow>
     map_array w' = map_array w \<and> MapSizeX w' = MapSizeX w \<and> MapSizeY w' = MapSizeY w
     \<and> rect (stations w' this) = rect (stations w this)
     \<and> industry (stations w' this) = industry (stations w this)
     \<and> airport_catchment (stations w' this) = airport_catchment (stations w this)
     \<and> (\<forall>i. location (industries w' i) = location (industries w i)
            \<and> accepts_cargo (industries w' i) = accepts_cargo (industries w i)
            \<and> neutral_station (industries w' i) = neutral_station (industries w i))"

definition catchment_spec ::
  "CatchmentArea \<Rightarrow> StationSettings \<Rightarrow> StationID \<Rightarrow> World \<Rightarrow> BitmapTileArea" where
  "catchment_spec ca s this w =
     (if IsEmpty (rect (stations w this)) then []
      else case neutral_link s this w of
             Some ind \<Rightarrow> industry_footprint w ind
           | None \<Rightarrow> general_catchment ca s this w)"

definition near_spec ::
  "CatchmentArea \<Rightarrow> StationSettings \<Rightarrow> StationID \<Rightarrow> World \<Rightarrow> IndustryID set" where
  "near_spec ca s this w =
     (if IsEmpty (rect (stations w this)) then {}
      else case neutral_link s this w of
             Some ind \<Rightarrow> {ind}
           | None \<Rightarrow> {i. (\<exists>tile\<in>set (general_catchment ca s this w). ind_tile (map_array w) tile i)
                          \<and> \<not> skipped s w i \<and> accepts w i})"

section \<open>Example worlds\<close>

definition ex_settings :: StationSettings where
  "ex_settings = \<lparr>modified_catchment = True, catchment_increase = 0,
                   serve_neutral_industries = False, station_spread = 12\<rparr>"

definition ex_ca :: CatchmentArea where
  "ex_ca = \<lparr>CA_BUS = 3, CA_TRUCK = 3, CA_TRAIN = 4, CA_DOCK = 5, CA_UNMODIFIED = 4\<rparr>"

definition clear_tile :: Tile where
  "clear_tile = \<lparr>tile_type = MP_CLEAR, station_index = 0, station_type = STATION_RAIL,
                  town_index = 0, industry_index = 0\<rparr>"

text \<open>
  A map of 6 by 6 tiles: a truck stop of station 1 at (1,1), a tile of industry 7 at (3,1),
  a tile of industry 8 at (1,3) and a house of town 2 at (2,2). Industry 7 accepts one
  cargo kind, industry 8 none.
\<close>

definition ex_map :: TileMap where
  "ex_map = (\<lambda>tile.
     if tile = (1, 1) then clear_tile\<lparr>tile_type := MP_STATION, station_index := 1,
                                       station_type := STATION_TRUCK\<rparr>
     else if tile = (3, 1) then clear_tile\<lparr>tile_type := MP_INDUSTRY, industry_index := 7\<rparr>
     else if tile = (1, 3) then clear_tile\<lparr>tile_type := MP_INDUSTRY, industry_index := 8\<rparr>
     else if tile = (2, 2) then clear_tile\<lparr>tile_type := MP_HOUSE, town_index := 2\<rparr>
     else clear_tile)"

definition ex_station :: Station where
  "ex_station = \<lparr>rect = \<lparr>left = 1, top' = 1, right = 1, bottom = 1\<rparr>, industry = None,
                  airport_catchment = 0, industries_near = {}, catchment_tiles = [],
                  station_tiles = 0\<rparr>"

definition ex_industry :: "IndustryID \<Rightarrow> Industry" where
  "ex_industry i =
     (if i = 7 then \<lparr>location = \<lparr>ta_tile = (3, 1), ta_w = 1, ta_h = 2\<rparr>,
                     accepts_cargo = [CT_INVALID, 3, CT_INVALID], neutral_station = None,
                     stations_near = {}\<rparr>
      else \<lparr>location = \<lparr>ta_tile = (1, 3), ta_w = 1, ta_h = 1\<rparr>,
            accepts_cargo = [CT_INVALID, CT_INVALID, CT_INVALID], neutral_station = None,
            stations_near = {}\<rparr>)"

definition ex_world :: World where
  "ex_world = \<lparr>map_array = ex_map, MapSizeX = 6, MapSizeY = 6,
                stations = (\<lambda>_. ex_station), industries = ex_industry,
                towns = (\<lambda>_. \<lparr>town_stations_near = {}\<rparr>)\<rparr>"

text \<open>The same world with station 1 as the neutral station of industry 7.\<close>

definition ex_neutral_world :: World where
  "ex_neutral_world =
     ex_world\<lparr>stations := (\<lambda>_. ex_station\<lparr>industry := Some 7\<rparr>),
               industries := (\<lambda>i. (ex_industry i)\<lparr>neutral_station :=
                                       (if i = 7 then Some 1 else None)\<rparr>)\<rparr>"

text \<open>
  The neutral station again, with the rect of a station that has no tile, a stale
  catchment, a stale industry and a tile count of 5.
\<close>

definition ex_empty_world :: World where
  "ex_empty_world =
     ex_neutral_world\<lparr>stations :=
       (\<lambda>_. ex_station\<lparr>rect := MakeEmpty, industry := Some 7, industries_near := {8},
                        catchment_tiles := [(1, 1)], station_tiles := 5\<rparr>)\<rparr>"

text \<open>
  The map with one tile of station 1 at (3,4), and the same map after the tile's removal.
\<close>

definition ex_placed_map :: TileMap where
  "ex_placed_map = (\<lambda>_. clear_tile)((3, 4) := clear_tile\<lparr>tile_type := MP_STATION, station_index := 1\<rparr>)"

definition ex_removed_map :: TileMap where
  "ex_removed_map = ex_placed_map((3, 4) := clear_tile)"

text \<open>
  Flow routing for two cargo kinds. Link graph 5, of cargo kind 0, has node 0 for station 1
  and node 1 for station 2, with an up-to-date edge from node 1 to node 0 (date 100);
  station 2 holds a flow from origin 1 and a flow from origin 3 via stations 1 and 2.
  No station has a graph for cargo kind 1 (graph 99 is not in the pool). Graph 5 is queued.
\<close>

definition ex_link_state :: LinkState where
  "ex_link_state =
     \<lparr>goods = (\<lambda>st c. \<lparr>link_graph = (if c = 0 then 5 else 99),
                        node = (if st = 1 then 0 else 1),
                        flows = (if st = 2 \<and> c = 0 then [1 \<mapsto> {1}, 3 \<mapsto> {1, 2}] else Map.empty)\<rparr>),
      link_graphs =
        [5 \<mapsto> [\<lparr>node_station = 1, LastUpdate = (\<lambda>_. INVALID_DATE)\<rparr>,
                \<lparr>node_station = 2, LastUpdate = (\<lambda>to. if to = 0 then 100 else INVALID_DATE)\<rparr>]],
      schedule = [5]\<rparr>"

text \<open>The same, with station 1 alone in graph 5.\<close>

definition ex_single_state :: LinkState where
  "ex_single_state =
     ex_link_state\<lparr>link_graphs := [5 \<mapsto> [\<lparr>node_station = 1, LastUpdate = (\<lambda>_. INVALID_DATE)\<rparr>]]\<rparr>"

section \<open>The spread limit of BeforeAddTile and BeforeAddRect\<close>

text \<open>
  C1 (as amended). For every non-empty bounding rect and every tile outside it whose
  inclusion would make the rect's width or height exceed the configured maximum spread:
  \<open>BeforeAddTile\<close> in Test mode returns the structured failure
  \<open>STR_ERROR_STATION_TOO_SPREAD_OUT\<close> and leaves the four bounds unchanged; in Try mode
  the call runs into \<open>assert(mode != ADD_TRY)\<close>, so it aborts instead of returning the
  failure (the assertion stands before the error return); in Force mode it succeeds and updates the rect to the minimal rect covering the
  old rect and the tile.
\<close>

theorem BeforeAddTile_spread_limit:
  assumes "\<not> IsEmpty r"
    and "\<not> PtInExtendedRect r (TileX tile) (TileY tile) 0"
    and "max (TileX tile) (right r) - min (TileX tile) (left r) + 1 > int (station_spread s)
         \<or> max (TileY tile) (bottom r) - min (TileY tile) (top' r) + 1 > int (station_spread s)"
  shows "BeforeAddTile s r tile ADD_TEST
           = Some (CommandError STR_ERROR_STATION_TOO_SPREAD_OUT, r)
         \<and> BeforeAddTile s r tile ADD_TRY = None
         \<and> BeforeAddTile s r tile ADD_FORCE
           = Some (CommandCost,
                   \<lparr>left = min (TileX tile) (left r), top' = min (TileY tile) (top' r),
                    right = max (TileX tile) (right r), bottom = max (TileY tile) (bottom r)\<rparr>)"
  using assms by (simp add: BeforeAddTile_def Let_def)

theorem BeforeAddTile_spread_limit_witness:
  "\<not> IsEmpty \<lparr>left = 1, top' = 1, right = 1, bottom = 1\<rparr>
   \<and> BeforeAddTile \<lparr>modified_catchment = True, catchment_increase = 0,
                     serve_neutral_industries = False, station_spread = 12\<rparr>
        \<lparr>left = 1, top' = 1, right = 1, bottom = 1\<rparr> (14, 1) ADD_TEST
      = Some (CommandError STR_ERROR_STATION_TOO_SPREAD_OUT,
              \<lparr>left = 1, top' = 1, right = 1, bottom = 1\<rparr>)
   \<and> BeforeAddTile \<lparr>modified_catchment = True, catchment_increase = 0,
                     serve_neutral_industries = False, station_spread = 12\<rparr>
        \<lparr>left = 1, top' = 1, right = 1, bottom = 1\<rparr> (14, 1) ADD_FORCE
      = Some (CommandCost, \<lparr>left = 1, top' = 1, right = 14, bottom = 1\<rparr>)"
  using BeforeAddTile_spread_limit
    [of "\<lparr>left = 1, top' = 1, right = 1, bottom = 1\<rparr>" "(14, 1)"
        "\<lparr>modified_catchment = True, catchment_increase = 0,
          serve_neutral_industries = False, station_spread = 12\<rparr>"]
  by (simp add: IsEmpty_def PtInExtendedRect_def TileX_def TileY_def)

text \<open>
  The claim as stated fails in Try mode: with a spread of 12, the rect (1,1)-(1,1) and the
  tile (14,1), the call does not return the failure but stops at the assertion.
\<close>

theorem BeforeAddTile_try_counterexample:
  "BeforeAddTile \<lparr>modified_catchment = True, catchment_increase = 0,
                   serve_neutral_industries = False, station_spread = 12\<rparr>
      \<lparr>left = 1, top' = 1, right = 1, bottom = 1\<rparr> (14, 1) ADD_TRY = None"
  by (simp add: BeforeAddTile_def IsEmpty_def PtInExtendedRect_def TileX_def TileY_def)

text \<open>
  C2. The claim: for every block whose width or height exceeds the maximum spread,
  \<open>BeforeAddRect\<close> in Test or Try mode fails with the too-spread-out condition and
  leaves the rect unchanged. The code leaves the rect unchanged but reports success: with a
  spread of 12, a block of 13 by 1 tiles at (1,1) is accepted in both modes.
\<close>

theorem BeforeAddRect_oversized_block_succeeds:
  "BeforeAddRect \<lparr>modified_catchment = True, catchment_increase = 0,
                   serve_neutral_industries = False, station_spread = 12\<rparr>
      \<lparr>left = 1, top' = 1, right = 1, bottom = 1\<rparr> (1, 1) 13 1 ADD_TEST
     = Some (CommandCost, \<lparr>left = 1, top' = 1, right = 1, bottom = 1\<rparr>)
   \<and> BeforeAddRect \<lparr>modified_catchment = True, catchment_increase = 0,
                   serve_neutral_industries = False, station_spread = 12\<rparr>
      \<lparr>left = 1, top' = 1, right = 1, bottom = 1\<rparr> (1, 1) 13 1 ADD_TRY
     = Some (CommandCost, \<lparr>left = 1, top' = 1, right = 1, bottom = 1\<rparr>)"
  by (simp add: BeforeAddRect_def)

text \<open>
  The same for every block: when the block is wider or higher than the spread allows and
  the mode is not Force, \<open>BeforeAddRect\<close> looks at neither corner and reports success.
\<close>

lemma BeforeAddRect_oversized:
  assumes "mode \<noteq> ADD_FORCE"
    and "w > int (station_spread s) \<or> h > int (station_spread s)"
  shows "BeforeAddRect s r tile w h mode = Some (CommandCost, r)"
  using assms by (auto simp: BeforeAddRect_def)

section \<open>The rect is empty exactly when the station has no tile\<close>

lemma scan_tiles_iff: "scan_tiles m st ts \<longleftrightarrow> (\<exists>t\<in>set ts. belongs_to m st t)"
  by (induction ts) (auto simp: belongs_to_def)

lemma set_tiles_of:
  "set (tiles_of ta) = {(x, y). TileX (ta_tile ta) \<le> x \<and> x \<le> TileX (ta_tile ta) + ta_w ta - 1
                              \<and> TileY (ta_tile ta) \<le> y \<and> y \<le> TileY (ta_tile ta) + ta_h ta - 1}"
  by (auto simp: tiles_of_def TileXY_def)

lemma ScanForStationTiles_iff:
  "ScanForStationTiles m st l t r b \<longleftrightarrow>
     (\<exists>x y. l \<le> x \<and> x \<le> r \<and> t \<le> y \<and> y \<le> b \<and> belongs_to m st (x, y))"
  by (auto simp: ScanForStationTiles_def scan_tiles_iff set_tiles_of TileAreaCorners_def
      TileXY_def TileX_def TileY_def)

lemma axis_step_inv:
  assumes "axis_inv C lo hi p" "axis_step C lo hi p = (lo', hi', p')" "lo' \<le> hi'"
  shows "axis_inv C lo' hi' p'"
proof (cases "axis_reduce C lo hi p")
  case False
  with assms show ?thesis by (simp add: axis_step_def)
next
  case red: True
  show ?thesis
  proof (cases "p = lo")
    case True
    with red assms have e: "lo' = lo + 1" "hi' = hi" "p' = lo + 1" by (auto simp: axis_step_def)
    from red True have "lo \<notin> C" by (simp add: axis_reduce_def)
    moreover from e assms(3) True have "p \<noteq> hi" by simp
    ultimately show ?thesis using assms(1) e unfolding axis_inv_def
      by (metis add.commute add_mono_thms_linordered_semiring(1) le_less not_le zless_imp_add1_zle)
  next
    case False
    with red have ph: "p = hi" by (simp add: axis_reduce_def)
    with False red assms have e: "lo' = lo" "hi' = hi - 1" "p' = hi - 1" by (auto simp: axis_step_def)
    from red ph have "hi \<notin> C" by (simp add: axis_reduce_def)
    then have "\<forall>c\<in>C. c \<le> hi - 1" using assms(1) unfolding axis_inv_def
      by (metis le_less zle_diff1_eq)
    then show ?thesis using assms(1) e False unfolding axis_inv_def by auto
  qed
qed

lemma axis_step_empty:
  assumes "axis_inv C lo hi p" "axis_step C lo hi p = (lo', hi', p')" "lo' > hi'"
  shows "C = {}"
proof (cases "axis_reduce C lo hi p")
  case False
  with assms have "hi < lo" by (simp add: axis_step_def)
  with assms(1) show ?thesis unfolding axis_inv_def by fastforce
next
  case red: True
  show ?thesis
  proof (cases "p = lo")
    case True
    with red assms have "hi < lo + 1" "lo \<notin> C" by (auto simp: axis_step_def axis_reduce_def)
    with assms(1) show ?thesis unfolding axis_inv_def by fastforce
  next
    case False
    with red have ph: "p = hi" by (simp add: axis_reduce_def)
    with False red assms have "hi - 1 < lo" "hi \<notin> C" by (auto simp: axis_step_def axis_reduce_def)
    with assms(1) False ph show ?thesis unfolding axis_inv_def by fastforce
  qed
qed

lemma axis_no_reduce:
  assumes "axis_inv C lo hi p" "\<not> axis_reduce C lo hi p"
  shows "lo \<in> C \<and> hi \<in> C"
  using assms unfolding axis_inv_def axis_reduce_def by auto

lemma scan_column:
  assumes "axis_inv (occ_y m st) t b y"
  shows "ScanForStationTiles m st x t x b \<longleftrightarrow> x \<in> occ_x m st"
proof
  assume "ScanForStationTiles m st x t x b"
  then obtain y' where "belongs_to m st (x, y')"
    unfolding ScanForStationTiles_iff by (metis order.antisym)
  then show "x \<in> occ_x m st" by (force simp: occ_x_def owned_def)
next
  assume "x \<in> occ_x m st"
  then obtain y' where b: "belongs_to m st (x, y')" by (auto simp: occ_x_def owned_def)
  then have "y' \<in> occ_y m st" by (force simp: occ_y_def owned_def)
  with assms have "t \<le> y' \<and> y' \<le> b" by (simp add: axis_inv_def)
  with b show "ScanForStationTiles m st x t x b" unfolding ScanForStationTiles_iff by blast
qed

lemma scan_row:
  assumes "axis_inv (occ_x m st) l r x"
  shows "ScanForStationTiles m st l y r y \<longleftrightarrow> y \<in> occ_y m st"
proof
  assume "ScanForStationTiles m st l y r y"
  then obtain x' where "belongs_to m st (x', y)"
    unfolding ScanForStationTiles_iff by (metis order.antisym)
  then show "y \<in> occ_y m st" by (force simp: occ_y_def owned_def)
next
  assume "y \<in> occ_y m st"
  then obtain x' where b: "belongs_to m st (x', y)" by (auto simp: occ_y_def owned_def)
  then have "x' \<in> occ_x m st" by (force simp: occ_x_def owned_def)
  with assms have "l \<le> x' \<and> x' \<le> r" by (simp add: axis_inv_def)
  with b show "ScanForStationTiles m st l y r y" unfolding ScanForStationTiles_iff by blast
qed

lemma body_eq:
  assumes "loop_inv m st x y r"
  shows "AfterRemoveTile_body m st x y r =
     (case (axis_step (occ_x m st) (left r) (right r) x, axis_step (occ_y m st) (top' r) (bottom r) y) of
        ((l', r', x'), (t', b', y')) \<Rightarrow>
          if \<not> (axis_reduce (occ_x m st) (left r) (right r) x \<or> axis_reduce (occ_y m st) (top' r) (bottom r) y)
          then Inl (False, r)
          else if l' > r' \<or> t' > b' then Inl (True, MakeEmpty)
          else Inr (x', y', \<lparr>left = l', top' = t', right = r', bottom = b'\<rparr>))"
proof -
  from assms have ax: "axis_inv (occ_x m st) (left r) (right r) x"
    and ay: "axis_inv (occ_y m st) (top' r) (bottom r) y" by (simp_all add: loop_inv_def)
  show ?thesis
    unfolding AfterRemoveTile_body_def Let_def scan_column[OF ay] scan_row[OF ax]
    by (cases r) (auto simp: axis_step_def axis_reduce_def)
qed

lemma occ_empty: "occ_x m st = {} \<longleftrightarrow> owned m st = {}" "occ_y m st = {} \<longleftrightarrow> owned m st = {}"
  by (simp_all add: occ_x_def occ_y_def)

lemma loop_result:
  "loop_inv m st x y r \<Longrightarrow> AfterRemoveTile_loop m st x y r = (e, r') \<Longrightarrow>
     (if owned m st = {} then e \<and> r' = MakeEmpty else \<not> e \<and> tight m st r')"
proof (induction m st x y r rule: AfterRemoveTile_loop.induct)
  case (1 m st x y r)
  from "1.prems"(1) have ax: "axis_inv (occ_x m st) (left r) (right r) x"
    and ay: "axis_inv (occ_y m st) (top' r) (bottom r) y" by (simp_all add: loop_inv_def)
  obtain l1 r1 x1 where sx: "axis_step (occ_x m st) (left r) (right r) x = (l1, r1, x1)"
    by (cases "axis_step (occ_x m st) (left r) (right r) x") auto
  obtain t1 b1 y1 where sy: "axis_step (occ_y m st) (top' r) (bottom r) y = (t1, b1, y1)"
    by (cases "axis_step (occ_y m st) (top' r) (bottom r) y") auto
  note beq = body_eq[OF "1.prems"(1), unfolded sx sy, simplified]
  consider (stay) "\<not> (axis_reduce (occ_x m st) (left r) (right r) x \<or> axis_reduce (occ_y m st) (top' r) (bottom r) y)"
    | (empty) "axis_reduce (occ_x m st) (left r) (right r) x \<or> axis_reduce (occ_y m st) (top' r) (bottom r) y"
        "l1 > r1 \<or> t1 > b1"
    | (go) "axis_reduce (occ_x m st) (left r) (right r) x \<or> axis_reduce (occ_y m st) (top' r) (bottom r) y"
        "l1 \<le> r1" "t1 \<le> b1"
    by linarith
  then show ?case
  proof cases
    case stay
    with beq have "AfterRemoveTile_body m st x y r = Inl (False, r)" by simp
    with "1.prems"(2) have res: "e = False" "r' = r"
      by (simp_all add: AfterRemoveTile_loop.simps[of m st x y r])
    from stay ax ay have "left r \<in> occ_x m st" "right r \<in> occ_x m st"
      "top' r \<in> occ_y m st" "bottom r \<in> occ_y m st"
      using axis_no_reduce by blast+
    moreover from this have "owned m st \<noteq> {}" using occ_empty(1) by blast
    ultimately show ?thesis using res ax ay
      by (simp add: tight_def axis_tight_def axis_inv_def)
  next
    case empty
    with beq have "AfterRemoveTile_body m st x y r = Inl (True, MakeEmpty)" by auto
    with "1.prems"(2) have res: "e = True" "r' = MakeEmpty"
      by (simp_all add: AfterRemoveTile_loop.simps[of m st x y r])
    from empty(2) have "owned m st = {}"
      using axis_step_empty[OF ax sx] axis_step_empty[OF ay sy] occ_empty by blast
    with res show ?thesis by simp
  next
    case go
    with beq have b: "AfterRemoveTile_body m st x y r
        = Inr (x1, y1, \<lparr>left = l1, top' = t1, right = r1, bottom = b1\<rparr>)" by auto
    have "loop_inv m st x1 y1 \<lparr>left = l1, top' = t1, right = r1, bottom = b1\<rparr>"
      using axis_step_inv[OF ax sx go(2)] axis_step_inv[OF ay sy go(3)]
      by (simp add: loop_inv_def)
    moreover from b "1.prems"(2)
    have "AfterRemoveTile_loop m st x1 y1 \<lparr>left = l1, top' = t1, right = r1, bottom = b1\<rparr> = (e, r')"
      by (simp add: AfterRemoveTile_loop.simps[of m st x y r])
    ultimately show ?thesis using "1.IH"[OF b refl refl] by blast
  qed
qed

lemma rect_inv_IsEmpty:
  assumes "rect_inv m st r"
  shows "IsEmpty r \<longleftrightarrow> owned m st = {}"
proof (cases "owned m st = {}")
  case True
  with assms show ?thesis by (simp add: rect_inv_def MakeEmpty_def IsEmpty_def)
next
  case False
  with assms have t: "tight m st r" and pos: "\<forall>tile\<in>owned m st. 0 < TileX tile"
    by (simp_all add: rect_inv_def)
  from t have "left r \<in> occ_x m st" by (simp add: tight_def axis_tight_def)
  with pos have "0 < left r" by (auto simp: occ_x_def TileX_def)
  moreover from t have "left r \<le> right r" "top' r \<le> bottom r"
    by (auto simp: tight_def axis_tight_def)
  ultimately show ?thesis using False by (simp add: IsEmpty_def)
qed

lemma owned_placed:
  "belongs_to (m(tile := t)) st tile \<Longrightarrow> owned (m(tile := t)) st = insert tile (owned m st)"
  by (auto simp: owned_def belongs_to_def IsTileType_def GetStationIndex_def)

lemma owned_cleared:
  "\<not> belongs_to (m(tile := t)) st tile \<Longrightarrow> owned (m(tile := t)) st = owned m st - {tile}"
  by (auto simp: owned_def belongs_to_def IsTileType_def GetStationIndex_def)

lemma BeforeAddTile_unchanged:
  "BeforeAddTile s r tile ADD_TEST = Some (ret, r') \<Longrightarrow> r' = r"
  "BeforeAddTile s r tile mode = Some (CommandError e, r') \<Longrightarrow> r' = r"
  by (auto simp: BeforeAddTile_def Let_def split: if_splits)

lemma BeforeAddTile_committed:
  assumes "BeforeAddTile s r tile mode = Some (CommandCost, r')" "mode \<noteq> ADD_TEST"
  shows "r' = (if IsEmpty r
               then \<lparr>left = TileX tile, top' = TileY tile, right = TileX tile, bottom = TileY tile\<rparr>
               else \<lparr>left = min (TileX tile) (left r), top' = min (TileY tile) (top' r),
                     right = max (TileX tile) (right r), bottom = max (TileY tile) (bottom r)\<rparr>)"
  using assms
  by (cases r) (auto simp: BeforeAddTile_def Let_def PtInExtendedRect_def split: if_splits)

lemma axis_tight_insert:
  "axis_tight C lo hi \<Longrightarrow> axis_tight (insert c C) (min c lo) (max c hi)"
  unfolding axis_tight_def by (auto simp: min_def max_def)

lemma axis_tight_single: "axis_tight {c} c c"
  by (simp add: axis_tight_def)

lemma axis_tight_remove:
  assumes "axis_tight (f ` B) lo hi"
  shows "axis_inv (f ` (B - {t})) lo hi (f t)"
proof -
  from assms obtain a b where ab: "a \<in> B" "f a = lo" "b \<in> B" "f b = hi"
    unfolding axis_tight_def by auto
  have "f t = lo \<or> lo \<in> f ` (B - {t})" using ab(1,2) by (cases "a = t") auto
  moreover have "f t = hi \<or> hi \<in> f ` (B - {t})" using ab(3,4) by (cases "b = t") auto
  moreover have "\<forall>c\<in>f ` (B - {t}). lo \<le> c \<and> c \<le> hi"
    using assms unfolding axis_tight_def by blast
  ultimately show ?thesis unfolding axis_inv_def by blast
qed

lemma rect_inv_added:
  assumes inv: "rect_inv m st r" and mode: "mode \<noteq> ADD_TEST" and pos: "0 < TileX tile"
    and ok: "BeforeAddTile s r tile mode = Some (CommandCost, r')"
    and placed: "belongs_to (m(tile := t)) st tile"
  shows "rect_inv (m(tile := t)) st r'"
proof -
  note ow = owned_placed[OF placed]
  have ox: "occ_x (m(tile := t)) st = insert (TileX tile) (occ_x m st)"
    and oy: "occ_y (m(tile := t)) st = insert (TileY tile) (occ_y m st)"
    by (simp_all add: occ_x_def occ_y_def ow TileX_def TileY_def)
  have p: "\<forall>tile\<in>owned (m(tile := t)) st. 0 < TileX tile"
    using inv pos by (simp add: ow rect_inv_def)
  have "tight (m(tile := t)) st r'"
  proof (cases "IsEmpty r")
    case True
    with inv have "owned m st = {}" by (simp add: rect_inv_IsEmpty)
    then have "occ_x m st = {}" "occ_y m st = {}" by (simp_all add: occ_empty)
    with True BeforeAddTile_committed[OF ok mode] show ?thesis
      by (simp add: tight_def ox oy axis_tight_single)
  next
    case False
    with inv have "owned m st \<noteq> {}" by (simp add: rect_inv_IsEmpty)
    with inv have "tight m st r" by (simp add: rect_inv_def)
    with False BeforeAddTile_committed[OF ok mode] show ?thesis
      by (simp add: tight_def ox oy axis_tight_insert)
  qed
  with p show ?thesis by (simp add: rect_inv_def ow)
qed

lemma rect_inv_removed:
  assumes inv: "rect_inv m st r" and was: "belongs_to m st tile"
    and gone: "\<not> belongs_to (m(tile := t)) st tile"
    and res: "AfterRemoveTile (m(tile := t)) st r tile = (e, r')"
  shows "rect_inv (m(tile := t)) st r'"
proof -
  note ow = owned_cleared[OF gone]
  from was have "tile \<in> owned m st" by (simp add: owned_def)
  then have "owned m st \<noteq> {}" by blast
  with inv have t: "tight m st r" by (simp add: rect_inv_def)
  have "loop_inv (m(tile := t)) st (TileX tile) (TileY tile) r"
    using t axis_tight_remove[of fst "owned m st" "left r" "right r" tile]
      axis_tight_remove[of snd "owned m st" "top' r" "bottom r" tile]
    by (simp add: loop_inv_def tight_def occ_x_def occ_y_def ow TileX_def TileY_def)
  from loop_result[OF this res[unfolded AfterRemoveTile_def]]
  have "if owned (m(tile := t)) st = {} then r' = MakeEmpty else tight (m(tile := t)) st r'"
    by (simp split: if_splits)
  moreover have "\<forall>tile\<in>owned (m(tile := t)) st. 0 < TileX tile"
    using inv by (simp add: ow rect_inv_def)
  ultimately show ?thesis by (simp add: rect_inv_def)
qed

lemma reachable_rect_inv: "reachable s st (m, r) \<Longrightarrow> rect_inv m st r"
proof (induction "(m, r)" arbitrary: m r rule: reachable.induct)
  case (initial m)
  then show ?case by (simp add: rect_inv_def owned_def)
next
  case (test m r tile ret r')
  then show ?case using BeforeAddTile_unchanged(1) by blast
next
  case (refused m r tile mode e r')
  then show ?case using BeforeAddTile_unchanged(2) by blast
next
  case (added m r mode tile r' t)
  then show ?case using rect_inv_added by blast
next
  case (removed m r tile t e r')
  then show ?case using rect_inv_removed by blast
next
  case (elsewhere m r tile t)
  then have "owned (m(tile := t)) st = owned m st"
    using owned_cleared[of m tile t st] by (auto simp: owned_def)
  with elsewhere show ?case
    by (auto simp: rect_inv_def tight_def occ_x_def occ_y_def split: if_splits)
qed

text \<open>
  C3 (as amended). For every state that the tile-placement logic reaches through
  \<open>BeforeAddTile\<close> and \<open>AfterRemoveTile\<close> while it places tiles with a positive X coordinate
  only, the rect is classified empty if and only if no tile belongs to the station; and
  committing a first tile to an empty rect (Try or Force mode) makes the rect non-empty for
  every tile whose X coordinate is not 0.
\<close>

theorem rect_empty_iff_no_tiles:
  "(reachable s st (m, r) \<longrightarrow> (IsEmpty r \<longleftrightarrow> (\<forall>tile. \<not> belongs_to m st tile)))
   \<and> (IsEmpty r0 \<and> mode \<noteq> ADD_TEST \<and> TileX tile \<noteq> 0 \<longrightarrow>
        (\<exists>r1. BeforeAddTile s r0 tile mode = Some (CommandCost, r1) \<and> \<not> IsEmpty r1))"
proof (intro conjI impI)
  assume "reachable s st (m, r)"
  then have "IsEmpty r \<longleftrightarrow> owned m st = {}"
    using reachable_rect_inv rect_inv_IsEmpty by blast
  then show "IsEmpty r \<longleftrightarrow> (\<forall>tile. \<not> belongs_to m st tile)" by (auto simp: owned_def)
next
  assume "IsEmpty r0 \<and> mode \<noteq> ADD_TEST \<and> TileX tile \<noteq> 0"
  then show "\<exists>r1. BeforeAddTile s r0 tile mode = Some (CommandCost, r1) \<and> \<not> IsEmpty r1"
    by (simp add: BeforeAddTile_def Let_def IsEmpty_def)
qed

theorem rect_empty_iff_no_tiles_witness:
  "reachable ex_settings 1 (ex_placed_map, \<lparr>left = 3, top' = 4, right = 3, bottom = 4\<rparr>)
   \<and> (IsEmpty \<lparr>left = 3, top' = 4, right = 3, bottom = 4\<rparr>
        \<longleftrightarrow> (\<forall>tile. \<not> belongs_to ex_placed_map 1 tile))
   \<and> belongs_to ex_placed_map 1 (3, 4)
   \<and> reachable ex_settings 1 (ex_removed_map, MakeEmpty)
   \<and> (IsEmpty MakeEmpty \<longleftrightarrow> (\<forall>tile. \<not> belongs_to ex_removed_map 1 tile))
   \<and> (\<exists>r1. BeforeAddTile ex_settings MakeEmpty (3, 4) ADD_TRY = Some (CommandCost, r1)
            \<and> \<not> IsEmpty r1)"
proof -
  let ?r = "\<lparr>left = 3, top' = 4, right = 3, bottom = 4\<rparr>"
  have none: "\<forall>tile. \<not> belongs_to (\<lambda>_. clear_tile) 1 tile"
    by (simp add: belongs_to_def IsTileType_def clear_tile_def)
  have add: "BeforeAddTile ex_settings MakeEmpty (3, 4) ADD_TRY = Some (CommandCost, ?r)"
    by (simp add: BeforeAddTile_def MakeEmpty_def IsEmpty_def TileX_def TileY_def)
  have placed: "belongs_to ex_placed_map 1 (3, 4)"
    by (simp add: ex_placed_map_def belongs_to_def IsTileType_def GetStationIndex_def clear_tile_def)
  have r1: "reachable ex_settings 1 (ex_placed_map, ?r)"
    unfolding ex_placed_map_def
    by (rule reachable.added[OF reachable.initial[OF none] _ _ add])
       (simp_all add: TileX_def belongs_to_def IsTileType_def GetStationIndex_def clear_tile_def)
  have gone: "\<not> belongs_to ex_removed_map 1 (3, 4)"
    by (simp add: ex_removed_map_def belongs_to_def IsTileType_def clear_tile_def)
  have shrink: "AfterRemoveTile ex_removed_map 1 ?r (3, 4) = (True, MakeEmpty)"
    by code_simp
  have r2: "reachable ex_settings 1 (ex_removed_map, MakeEmpty)"
    unfolding ex_removed_map_def
    by (rule reachable.removed[OF r1 placed gone[unfolded ex_removed_map_def]
          shrink[unfolded ex_removed_map_def]])
  have x: "IsEmpty MakeEmpty \<and> ADD_TRY \<noteq> ADD_TEST \<and> TileX (3, 4) \<noteq> 0"
    by (simp add: IsEmpty_def MakeEmpty_def TileX_def)
  from rect_empty_iff_no_tiles[of ex_settings 1 ex_placed_map ?r MakeEmpty ADD_TRY "(3, 4)"]
    rect_empty_iff_no_tiles[of ex_settings 1 ex_removed_map MakeEmpty MakeEmpty ADD_TRY "(3, 4)"]
    r1 r2 x placed
  show ?thesis by blast
qed

text \<open>
  The claim as stated fails for a tile whose X coordinate is 0: after the first tile (0,5)
  is committed to the empty rect, the rect is (0,5)-(0,5) and \<open>IsEmpty\<close> still holds,
  since \<open>left == 0\<close> is its mark of an empty rect.
\<close>

theorem rect_first_tile_x0_counterexample:
  "BeforeAddTile ex_settings MakeEmpty (0, 5) ADD_TRY
     = Some (CommandCost, \<lparr>left = 0, top' = 5, right = 0, bottom = 5\<rparr>)
   \<and> IsEmpty \<lparr>left = 0, top' = 5, right = 0, bottom = 5\<rparr>"
  by (simp add: BeforeAddTile_def MakeEmpty_def IsEmpty_def TileX_def TileY_def)

section \<open>Closed forms of the catchment loops\<close>

lemma update_station_simps [simp]:
  "stations (update_station st f w) = (stations w)(st := f (stations w st))"
  "industries (update_station st f w) = industries w"
  "towns (update_station st f w) = towns w"
  "map_array (update_station st f w) = map_array w"
  "MapSizeX (update_station st f w) = MapSizeX w"
  "MapSizeY (update_station st f w) = MapSizeY w"
  by (simp_all add: update_station_def)

lemma update_industry_simps [simp]:
  "stations (update_industry i f w) = stations w"
  "industries (update_industry i f w) = (industries w)(i := f (industries w i))"
  "towns (update_industry i f w) = towns w"
  "map_array (update_industry i f w) = map_array w"
  "MapSizeX (update_industry i f w) = MapSizeX w"
  "MapSizeY (update_industry i f w) = MapSizeY w"
  by (simp_all add: update_industry_def)

lemma update_town_simps [simp]:
  "stations (update_town t f w) = stations w"
  "industries (update_town t f w) = industries w"
  "towns (update_town t f w) = (towns w)(t := f (towns w t))"
  "map_array (update_town t f w) = map_array w"
  "MapSizeX (update_town t f w) = MapSizeX w"
  "MapSizeY (update_town t f w) = MapSizeY w"
  by (simp_all add: update_town_def)

lemma RemoveFromAllNearbyLists_simps [simp]:
  "stations (RemoveFromAllNearbyLists this w) = stations w"
  "industries (RemoveFromAllNearbyLists this w) i
     = (industries w i)\<lparr>stations_near := stations_near (industries w i) - {this}\<rparr>"
  "towns (RemoveFromAllNearbyLists this w) t
     = (towns w t)\<lparr>town_stations_near := town_stations_near (towns w t) - {this}\<rparr>"
  "map_array (RemoveFromAllNearbyLists this w) = map_array w"
  "MapSizeX (RemoveFromAllNearbyLists this w) = MapSizeX w"
  "MapSizeY (RemoveFromAllNearbyLists this w) = MapSizeY w"
  by (simp_all add: RemoveFromAllNearbyLists_def)

lemma first_accepted_less: "first_accepted cs < length cs \<longleftrightarrow> (\<exists>c\<in>set cs. c \<noteq> CT_INVALID)"
  by (induction cs) auto

lemma AddIndustryToDeliver_simps [simp]:
  "industries (AddIndustryToDeliver this i w) = industries w"
  "towns (AddIndustryToDeliver this i w) = towns w"
  "map_array (AddIndustryToDeliver this i w) = map_array w"
  "MapSizeX (AddIndustryToDeliver this i w) = MapSizeX w"
  "MapSizeY (AddIndustryToDeliver this i w) = MapSizeY w"
  by (simp_all add: AddIndustryToDeliver_def Let_def)

lemma AddIndustryToDeliver_stations:
  "stations (AddIndustryToDeliver this i w)
     = (stations w)(this := (stations w this)\<lparr>industries_near :=
          (if accepts w i then insert i (industries_near (stations w this))
           else industries_near (stations w this))\<rparr>)"
  using first_accepted_less[of "accepts_cargo (industries w i)"]
  by (auto simp: AddIndustryToDeliver_def Let_def accepts_def insert_absorb fun_eq_iff not_less)

lemma nearby_loop_fold: "nearby_loop s this ts w = fold (nearby_step s this) ts w"
  by (induction ts arbitrary: w) (auto simp: Let_def nearby_step_def skipped_def)

lemma nearby_step_frame [simp]:
  "map_array (nearby_step s this tile w) = map_array w"
  "MapSizeX (nearby_step s this tile w) = MapSizeX w"
  "MapSizeY (nearby_step s this tile w) = MapSizeY w"
  "location (industries (nearby_step s this tile w) i) = location (industries w i)"
  "accepts_cargo (industries (nearby_step s this tile w) i) = accepts_cargo (industries w i)"
  "neutral_station (industries (nearby_step s this tile w) i) = neutral_station (industries w i)"
  by (simp_all add: nearby_step_def Let_def)

lemma nearby_step_accepts [simp]:
  "accepts (nearby_step s this tile w) i = accepts w i"
  "skipped s (nearby_step s this tile w) i = skipped s w i"
  by (simp_all add: accepts_def skipped_def)

lemma nearby_step_stations:
  "stations (nearby_step s this tile w)
     = (stations w)(this := (stations w this)\<lparr>industries_near :=
          (if IsTileType (map_array w) tile MP_INDUSTRY
              \<and> \<not> skipped s w (GetIndustryIndex (map_array w) tile)
              \<and> accepts w (GetIndustryIndex (map_array w) tile)
           then insert (GetIndustryIndex (map_array w) tile) (industries_near (stations w this))
           else industries_near (stations w this))\<rparr>)"
  by (simp add: nearby_step_def Let_def AddIndustryToDeliver_stations accepts_def)

lemma nearby_step_stations_near:
  "stations_near (industries (nearby_step s this tile w) i)
     = (if ind_tile (map_array w) tile i \<and> \<not> skipped s w i
        then insert this (stations_near (industries w i))
        else stations_near (industries w i))"
  by (auto simp: nearby_step_def Let_def ind_tile_def)

lemma nearby_loop_frame:
  "map_array (nearby_loop s this ts w) = map_array w"
  "MapSizeX (nearby_loop s this ts w) = MapSizeX w"
  "MapSizeY (nearby_loop s this ts w) = MapSizeY w"
  "location (industries (nearby_loop s this ts w) i) = location (industries w i)"
  "accepts_cargo (industries (nearby_loop s this ts w) i) = accepts_cargo (industries w i)"
  "neutral_station (industries (nearby_loop s this ts w) i) = neutral_station (industries w i)"
  unfolding nearby_loop_fold by (induction ts arbitrary: w; simp)+

lemma nearby_loop_other_station:
  "st \<noteq> this \<Longrightarrow> stations (nearby_loop s this ts w) st = stations w st"
  unfolding nearby_loop_fold by (induction ts arbitrary: w) (simp_all add: nearby_step_stations)

lemma nearby_loop_station_frame:
  "rect (stations (nearby_loop s this ts w) this) = rect (stations w this)"
  "industry (stations (nearby_loop s this ts w) this) = industry (stations w this)"
  "airport_catchment (stations (nearby_loop s this ts w) this) = airport_catchment (stations w this)"
  "catchment_tiles (stations (nearby_loop s this ts w) this) = catchment_tiles (stations w this)"
  "station_tiles (stations (nearby_loop s this ts w) this) = station_tiles (stations w this)"
  unfolding nearby_loop_fold by (induction ts arbitrary: w; simp add: nearby_step_stations)+

lemma nearby_loop_industries_near:
  "industries_near (stations (nearby_loop s this ts w) this)
     = industries_near (stations w this)
       \<union> {i. (\<exists>tile\<in>set ts. ind_tile (map_array w) tile i) \<and> \<not> skipped s w i \<and> accepts w i}"
  unfolding nearby_loop_fold
proof (induction ts arbitrary: w)
  case Nil
  show ?case by simp
next
  case (Cons tile ts)
  show ?case
    by (auto simp: Cons.IH nearby_step_stations ind_tile_def)
qed

lemma nearby_loop_stations_near:
  "stations_near (industries (nearby_loop s this ts w) i)
     = (if (\<exists>tile\<in>set ts. ind_tile (map_array w) tile i) \<and> \<not> skipped s w i
        then insert this (stations_near (industries w i))
        else stations_near (industries w i))"
  unfolding nearby_loop_fold
proof (induction ts arbitrary: w)
  case Nil
  show ?case by simp
next
  case (Cons tile ts)
  show ?case
    by (auto simp: Cons.IH nearby_step_stations_near)
qed

lemma GetTileCatchmentRadius_spec:
  "IsTileType m tile MP_STATION \<Longrightarrow>
     GetTileCatchmentRadius ca s m tile st
       = Some (spec_radius ca s (GetStationType m tile) (airport_catchment st))"
  by (cases "GetStationType m tile")
     (simp_all add: GetTileCatchmentRadius_def spec_radius_def type_radius_def Let_def CA_NONE_def)

lemma station_tiles_loop_eq:
  "station_tiles_loop ca s w this ts st
     = Some (st\<lparr>station_tiles := station_tiles st + length (filter (own_tile (map_array w) this) ts),
               catchment_tiles := fold (catchment_step ca s w this (airport_catchment st)) ts
                                    (catchment_tiles st)\<rparr>)"
proof (induction ts arbitrary: st)
  case Nil
  show ?case by simp
next
  case (Cons tile ts)
  show ?case
  proof (cases "own_tile (map_array w) this tile")
    case False
    then show ?thesis
      by (auto simp: Cons.IH own_tile_def catchment_step_def)
  next
    case True
    let ?r = "spec_radius ca s (GetStationType (map_array w) tile) (airport_catchment st)"
    let ?st1 = "st\<lparr>station_tiles := station_tiles st + 1\<rparr>"
    from True have step: "station_tiles_loop ca s w this (tile # ts) st
        = (if ?r = 0 then station_tiles_loop ca s w this ts ?st1
           else station_tiles_loop ca s w this ts
                  (?st1\<lparr>catchment_tiles := fold SetTile (square w tile ?r) (catchment_tiles st)\<rparr>))"
      by (simp add: own_tile_def GetTileCatchmentRadius_spec Let_def CA_NONE_def square_def)
    show ?thesis
      unfolding step using True by (simp add: Cons.IH catchment_step_def)
  qed
qed

lemma count_tiles_loop_eq:
  "count_tiles_loop m this ts n = n + length (filter (own_tile m this) ts)"
  by (induction ts arbitrary: n) (auto simp: own_tile_def)

lemma set_fold_SetTile: "set (fold SetTile ts bitmap) = set ts \<union> set bitmap"
  by (induction ts arbitrary: bitmap) (auto simp: SetTile_def)

lemma set_industry_tiles_loop:
  "set (industry_tiles_loop m ind ts bitmap) = set bitmap \<union> {tile \<in> set ts. ind_tile m tile ind}"
  by (induction ts arbitrary: bitmap) (auto simp: SetTile_def ind_tile_def)

lemma set_fold_catchment_step:
  "set (fold (catchment_step ca s w this airport) ts bitmap)
     = set bitmap \<union> (\<Union>tile\<in>{tile \<in> set ts. own_tile (map_array w) this tile
                           \<and> spec_radius ca s (GetStationType (map_array w) tile) airport \<noteq> 0}.
                        set (square w tile (spec_radius ca s (GetStationType (map_array w) tile) airport)))"
  by (induction ts arbitrary: bitmap) (auto simp: catchment_step_def set_fold_SetTile)

lemma in_fold_catchment_step:
  "tile2 \<in> set (fold (catchment_step ca s w this airport) ts bitmap) \<longleftrightarrow>
     tile2 \<in> set bitmap
     \<or> (\<exists>tile\<in>set ts. own_tile (map_array w) this tile
           \<and> spec_radius ca s (GetStationType (map_array w) tile) airport \<noteq> 0
           \<and> tile2 \<in> set (square w tile (spec_radius ca s (GetStationType (map_array w) tile) airport)))"
  unfolding set_fold_catchment_step by blast

lemma RecomputeCatchment_general_eq:
  "RecomputeCatchment_general ca s this w
     = Some (nearby_loop s this (general_catchment ca s this w)
              (update_station this
                 (\<lambda>st. st\<lparr>station_tiles := own_tile_count this w,
                          catchment_tiles := general_catchment ca s this w\<rparr>) w))"
  by (simp add: RecomputeCatchment_general_def Let_def station_tiles_loop_eq Initialize_def
      general_catchment_def own_tile_count_def rect_tiles_def update_station_def)

lemma cleared_simps [simp]:
  "map_array (cleared this ncl w) = map_array w"
  "MapSizeX (cleared this ncl w) = MapSizeX w"
  "MapSizeY (cleared this ncl w) = MapSizeY w"
  "stations (cleared this ncl w) = (stations w)(this := (stations w this)\<lparr>industries_near := {}\<rparr>)"
  "location (industries (cleared this ncl w) i) = location (industries w i)"
  "accepts_cargo (industries (cleared this ncl w) i) = accepts_cargo (industries w i)"
  "neutral_station (industries (cleared this ncl w) i) = neutral_station (industries w i)"
  "stations_near (industries (cleared this ncl w) i)
     = (if ncl then stations_near (industries w i) else stations_near (industries w i) - {this})"
  by (simp_all add: cleared_def Let_def)

lemma RecomputeCatchment_eq:
  "RecomputeCatchment ca s this ncl w =
     Some (if IsEmpty (rect (stations w this))
           then update_station this (\<lambda>st. st\<lparr>catchment_tiles := []\<rparr>) (cleared this ncl w)
           else case neutral_link s this w of
                  Some ind \<Rightarrow> RecomputeCatchment_neutral this ind (cleared this ncl w)
                | None \<Rightarrow>
                    nearby_loop s this (general_catchment ca s this (cleared this ncl w))
                      (update_station this
                         (\<lambda>st. st\<lparr>station_tiles := own_tile_count this (cleared this ncl w),
                                  catchment_tiles := general_catchment ca s this (cleared this ncl w)\<rparr>)
                         (cleared this ncl w)))"
proof -
  have c: "(if \<not> ncl
            then RemoveFromAllNearbyLists this (update_station this (\<lambda>st. st\<lparr>industries_near := {}\<rparr>) w)
            else update_station this (\<lambda>st. st\<lparr>industries_near := {}\<rparr>) w) = cleared this ncl w"
    by (simp add: cleared_def Let_def)
  show ?thesis
    unfolding RecomputeCatchment_def Let_def c
    by (simp add: neutral_link_def Reset_def RecomputeCatchment_general_eq split: option.splits)
qed

lemma RecomputeCatchment_neutral_frame [simp]:
  "map_array (RecomputeCatchment_neutral this ind w) = map_array w"
  "MapSizeX (RecomputeCatchment_neutral this ind w) = MapSizeX w"
  "MapSizeY (RecomputeCatchment_neutral this ind w) = MapSizeY w"
  "towns (RecomputeCatchment_neutral this ind w) = towns w"
  "location (industries (RecomputeCatchment_neutral this ind w) i) = location (industries w i)"
  "accepts_cargo (industries (RecomputeCatchment_neutral this ind w) i) = accepts_cargo (industries w i)"
  "neutral_station (industries (RecomputeCatchment_neutral this ind w) i) = neutral_station (industries w i)"
  "rect (stations (RecomputeCatchment_neutral this ind w) st) = rect (stations w st)"
  "industry (stations (RecomputeCatchment_neutral this ind w) st) = industry (stations w st)"
  "airport_catchment (stations (RecomputeCatchment_neutral this ind w) st) = airport_catchment (stations w st)"
  by (simp_all add: RecomputeCatchment_neutral_def Let_def)

lemma RecomputeCatchment_neutral_result:
  "catchment_tiles (stations (RecomputeCatchment_neutral this ind w) this) = industry_footprint w ind"
  "industries_near (stations (RecomputeCatchment_neutral this ind w) this)
     = insert ind (industries_near (stations w this))"
  "station_tiles (stations (RecomputeCatchment_neutral this ind w) this) = own_tile_count this w"
  "stations_near (industries (RecomputeCatchment_neutral this ind w) i)
     = (if i = ind then {this} else stations_near (industries w i))"
  "st \<noteq> this \<Longrightarrow> industries_near (stations (RecomputeCatchment_neutral this ind w) st)
     = (if st \<in> stations_near (industries w ind) then industries_near (stations w st) - {ind}
        else industries_near (stations w st))"
  by (auto simp: RecomputeCatchment_neutral_def Let_def industry_footprint_def Initialize_def
      own_tile_count_def count_tiles_loop_eq rect_tiles_def)

lemma same_inputs_general_catchment:
  assumes "same_inputs this w w'"
  shows "general_catchment ca s this w' = general_catchment ca s this w"
proof -
  from assms have m: "map_array w' = map_array w" "MapSizeX w' = MapSizeX w"
    "MapSizeY w' = MapSizeY w" by (simp_all add: same_inputs_def)
  have "catchment_step ca s w' this = catchment_step ca s w this"
    by (intro ext) (simp add: catchment_step_def square_def m)
  with assms show ?thesis by (simp add: general_catchment_def same_inputs_def)
qed

lemma same_inputs_specs:
  assumes "same_inputs this w w'"
  shows "catchment_spec ca s this w' = catchment_spec ca s this w"
    and "near_spec ca s this w' = near_spec ca s this w"
proof -
  have n: "neutral_link s this w' = neutral_link s this w"
    and r: "rect (stations w' this) = rect (stations w this)"
    and m: "map_array w' = map_array w"
    and f: "\<And>ind. industry_footprint w' ind = industry_footprint w ind"
    and sk: "\<And>i. skipped s w' i = skipped s w i" "\<And>i. accepts w' i = accepts w i"
    using assms
    by (simp_all add: same_inputs_def neutral_link_def industry_footprint_def skipped_def accepts_def)
  show "catchment_spec ca s this w' = catchment_spec ca s this w"
    by (simp add: catchment_spec_def n r f same_inputs_general_catchment[OF assms]
        split: option.splits)
  show "near_spec ca s this w' = near_spec ca s this w"
    by (simp add: near_spec_def n r m sk same_inputs_general_catchment[OF assms]
        split: option.splits)
qed

lemma same_inputs_cleared: "same_inputs this w (cleared this ncl w)"
  by (simp add: same_inputs_def)

lemma same_inputs_trans: "same_inputs this w w' \<Longrightarrow> same_inputs this w' w'' \<Longrightarrow> same_inputs this w w''"
  by (simp add: same_inputs_def)

lemma RecomputeCatchment_same_inputs:
  assumes "RecomputeCatchment ca s this ncl w = Some v"
  shows "same_inputs this w v"
proof -
  let ?c = "cleared this ncl w"
  have "same_inputs this ?c v"
    using assms unfolding RecomputeCatchment_eq
    by (auto simp: same_inputs_def nearby_loop_frame nearby_loop_station_frame
        split: if_splits option.splits)
  with same_inputs_cleared[of this w ncl] show ?thesis by (rule same_inputs_trans)
qed

lemma accepts_skipped_frame [simp]:
  "accepts (update_station st f w) i = accepts w i"
  "skipped s (update_station st f w) i = skipped s w i"
  "accepts (cleared this ncl w) i = accepts w i"
  "skipped s (cleared this ncl w) i = skipped s w i"
  by (simp_all add: accepts_def skipped_def)

lemma RecomputeCatchment_outputs:
  assumes "RecomputeCatchment ca s this ncl w = Some v"
  shows "catchment_tiles (stations v this) = catchment_spec ca s this w"
    and "industries_near (stations v this) = near_spec ca s this w"
proof -
  let ?c = "cleared this ncl w"
  note sp = same_inputs_specs[OF same_inputs_cleared[of this w ncl], of ca s, symmetric]
  have e: "IsEmpty (rect (stations ?c this)) = IsEmpty (rect (stations w this))"
    and n: "neutral_link s this ?c = neutral_link s this w" by (simp_all add: neutral_link_def)
  have "catchment_tiles (stations v this) = catchment_spec ca s this ?c"
    using assms unfolding RecomputeCatchment_eq catchment_spec_def e n
    by (auto simp: nearby_loop_station_frame RecomputeCatchment_neutral_result
        split: if_splits option.splits)
  then show "catchment_tiles (stations v this) = catchment_spec ca s this w"
    by (simp add: sp)
  have "industries_near (stations v this) = near_spec ca s this ?c"
  proof (cases "IsEmpty (rect (stations w this))")
    case True
    with assms show ?thesis unfolding RecomputeCatchment_eq near_spec_def e by auto
  next
    case ne: False
    show ?thesis
    proof (cases "neutral_link s this w")
      case (Some ind)
      with ne assms show ?thesis unfolding RecomputeCatchment_eq near_spec_def e n
        by (auto simp: RecomputeCatchment_neutral_result)
    next
      case None
      with ne assms have "v = nearby_loop s this (general_catchment ca s this ?c)
          (update_station this
             (\<lambda>st. st\<lparr>station_tiles := own_tile_count this ?c,
                      catchment_tiles := general_catchment ca s this ?c\<rparr>) ?c)"
        unfolding RecomputeCatchment_eq by simp
      then show ?thesis
        unfolding near_spec_def e n using ne None
        by (simp add: nearby_loop_industries_near)
    qed
  qed
  then show "industries_near (stations v this) = near_spec ca s this w"
    by (simp add: sp)
qed

lemma RecomputeCatchment_total: "\<exists>v. RecomputeCatchment ca s this ncl w = Some v"
  by (simp add: RecomputeCatchment_eq)

lemma RecomputeCatchment_accepts:
  assumes "RecomputeCatchment ca s this ncl w = Some v"
  shows "accepts v i = accepts w i"
  using RecomputeCatchment_same_inputs[OF assms] by (simp add: same_inputs_def accepts_def)

lemma RecomputeCatchment_stations_near:
  assumes "RecomputeCatchment ca s this ncl w = Some v"
    and "ncl \<longrightarrow> (\<forall>i. this \<notin> stations_near (industries w i))"
  shows "stations_near (industries v i)
     = (if IsEmpty (rect (stations w this)) then stations_near (industries w i) - {this}
        else case neutral_link s this w of
               Some ind \<Rightarrow> if i = ind then {this} else stations_near (industries w i) - {this}
             | None \<Rightarrow>
                 if (\<exists>tile\<in>set (general_catchment ca s this w). ind_tile (map_array w) tile i)
                    \<and> \<not> skipped s w i
                 then insert this (stations_near (industries w i) - {this})
                 else stations_near (industries w i) - {this})"
proof -
  let ?c = "cleared this ncl w"
  have g: "general_catchment ca s this ?c = general_catchment ca s this w"
    using same_inputs_general_catchment[OF same_inputs_cleared] .
  have sn: "stations_near (industries ?c i) = stations_near (industries w i) - {this}" for i
    using assms(2) by simp
  show ?thesis
  proof (cases "IsEmpty (rect (stations w this))")
    case True
    with assms(1) show ?thesis unfolding RecomputeCatchment_eq by (auto simp: sn simp del: cleared_simps(8))
  next
    case ne: False
    show ?thesis
    proof (cases "neutral_link s this w")
      case (Some ind)
      with ne assms(1) show ?thesis unfolding RecomputeCatchment_eq
        by (auto simp: RecomputeCatchment_neutral_result sn simp del: cleared_simps(8))
    next
      case None
      with ne assms(1) have "v = nearby_loop s this (general_catchment ca s this w)
          (update_station this
             (\<lambda>st. st\<lparr>station_tiles := own_tile_count this ?c,
                      catchment_tiles := general_catchment ca s this w\<rparr>) ?c)"
        unfolding RecomputeCatchment_eq g by simp
      then show ?thesis using ne None
        by (simp add: nearby_loop_stations_near sn del: cleared_simps(8))
    qed
  qed
qed

lemma RecomputeCatchment_other_station:
  assumes "RecomputeCatchment ca s this ncl w = Some v" and "st \<noteq> this"
    and "ncl \<longrightarrow> (\<forall>i. this \<notin> stations_near (industries w i))"
  shows "industries_near (stations v st)
     = (if IsEmpty (rect (stations w this)) then industries_near (stations w st)
        else case neutral_link s this w of
               Some ind \<Rightarrow> if st \<in> stations_near (industries w ind)
                           then industries_near (stations w st) - {ind}
                           else industries_near (stations w st)
             | None \<Rightarrow> industries_near (stations w st))"
proof (cases "IsEmpty (rect (stations w this))")
  case True
  with assms(1,2) show ?thesis unfolding RecomputeCatchment_eq by auto
next
  case ne: False
  show ?thesis
  proof (cases "neutral_link s this w")
    case (Some ind)
    have sn: "stations_near (industries (cleared this ncl w) i) = stations_near (industries w i) - {this}"
      for i using assms(3) by simp
    from Some ne assms(1,2) show ?thesis unfolding RecomputeCatchment_eq
      by (auto simp: RecomputeCatchment_neutral_result sn simp del: cleared_simps(8))
  next
    case None
    with ne assms(1,2) show ?thesis unfolding RecomputeCatchment_eq
      by (auto simp: nearby_loop_other_station)
  qed
qed

section \<open>The station-industry relation after RecomputeCatchment\<close>

text \<open>
  C4 (as amended). After a call of \<open>RecomputeCatchment\<close> on station S that first clears the
  nearby lists (\<open>no_clear_nearby_lists = false\<close>), or that finds S in no industry's
  stations-near set (as in \<open>RecomputeCatchmentForAll\<close>, which clears these sets before it
  calls with \<open>no_clear_nearby_lists = true\<close>):

    \<^item> for every industry I, if I is in S's \<open>industries_near\<close> set then S is in I's
      stations-near set;
    \<^item> for every industry I that accepts at least one cargo kind, S is in I's stations-near
      set if and only if I is in S's \<open>industries_near\<close> set;
    \<^item> S is in I's stations-near set without I being in S's \<open>industries_near\<close> set exactly
      when I accepts no cargo kind, the rect of S is not empty, S is not treated as a neutral
      station (the setting \<open>serve_neutral_industries\<close> is on, or S is linked to no industry),
      I is not passed over for having a neutral station (the setting is on, or I has none),
      and a tile of I lies in the catchment of S;
    \<^item> if the first property held for every station and every industry before the call, it
      holds for every station and every industry after it; and if the second held for every
      station and every industry that accepts cargo before the call, it holds for every
      station and every such industry after it.
\<close>

theorem RecomputeCatchment_symmetric:
  assumes "no_clear_nearby_lists \<longrightarrow> (\<forall>i. this \<notin> stations_near (industries w i))"
  shows "\<exists>v. RecomputeCatchment ca s this no_clear_nearby_lists w = Some v
     \<and> (\<forall>i. i \<in> industries_near (stations v this) \<longrightarrow> this \<in> stations_near (industries v i))
     \<and> (\<forall>i. accepts v i \<longrightarrow> symmetric_on v this i)
     \<and> (\<forall>i. this \<in> stations_near (industries v i) \<and> i \<notin> industries_near (stations v this)
            \<longleftrightarrow> \<not> accepts v i
                \<and> \<not> IsEmpty (rect (stations v this))
                \<and> (serve_neutral_industries s \<or> industry (stations v this) = None)
                \<and> (serve_neutral_industries s \<or> neutral_station (industries v i) = None)
                \<and> (\<exists>tile. HasTile (catchment_tiles (stations v this)) tile
                       \<and> IsTileType (map_array v) tile MP_INDUSTRY
                       \<and> GetIndustryIndex (map_array v) tile = i))
     \<and> ((\<forall>st i. i \<in> industries_near (stations w st) \<longrightarrow> st \<in> stations_near (industries w i))
          \<longrightarrow> (\<forall>st i. i \<in> industries_near (stations v st) \<longrightarrow> st \<in> stations_near (industries v i)))
     \<and> ((\<forall>st i. accepts w i \<longrightarrow> symmetric_on w st i)
          \<longrightarrow> (\<forall>st i. accepts v i \<longrightarrow> symmetric_on v st i))"
proof -
  obtain v where v: "RecomputeCatchment ca s this no_clear_nearby_lists w = Some v"
    using RecomputeCatchment_total by blast
  note near = RecomputeCatchment_outputs(2)[OF v]
  note tiles = RecomputeCatchment_outputs(1)[OF v]
  note sn = RecomputeCatchment_stations_near[OF v assms]
  note other = RecomputeCatchment_other_station[OF v _ assms]
  note acc = RecomputeCatchment_accepts[OF v]
  note same = RecomputeCatchment_same_inputs[OF v]
  have fwd: "this \<in> stations_near (industries v i)" if "i \<in> industries_near (stations v this)" for i
    using that unfolding near sn near_spec_def
    by (auto split: option.splits if_splits)
  have this_sym: "symmetric_on v this i" if "accepts v i" for i
    using that unfolding symmetric_on_def near sn near_spec_def acc
    by (auto split: option.splits)
  have frame: "rect (stations v this) = rect (stations w this)"
    "industry (stations v this) = industry (stations w this)"
    "neutral_station (industries v i) = neutral_station (industries w i)"
    "map_array v = map_array w" for i
    using same by (simp_all add: same_inputs_def)
  have gap: "this \<in> stations_near (industries v i) \<and> i \<notin> industries_near (stations v this)
            \<longleftrightarrow> \<not> accepts v i
                \<and> \<not> IsEmpty (rect (stations v this))
                \<and> (serve_neutral_industries s \<or> industry (stations v this) = None)
                \<and> (serve_neutral_industries s \<or> neutral_station (industries v i) = None)
                \<and> (\<exists>tile. HasTile (catchment_tiles (stations v this)) tile
                       \<and> IsTileType (map_array v) tile MP_INDUSTRY
                       \<and> GetIndustryIndex (map_array v) tile = i)" for i
    unfolding frame tiles near sn near_spec_def catchment_spec_def acc HasTile_def
      neutral_link_def skipped_def ind_tile_def
    by (auto split: option.splits if_splits)
  have all_fwd: "st \<in> stations_near (industries v i)"
    if pre: "\<forall>st i. i \<in> industries_near (stations w st) \<longrightarrow> st \<in> stations_near (industries w i)"
      and a: "i \<in> industries_near (stations v st)" for st i
  proof (cases "st = this")
    case True
    with a fwd show ?thesis by simp
  next
    case False
    from pre have p: "\<And>st. i \<in> industries_near (stations w st) \<Longrightarrow> st \<in> stations_near (industries w i)"
      by blast
    show ?thesis
      using False a p[of st] unfolding other[OF False] sn
      by (auto split: option.splits if_splits)
  qed
  have all_sym: "symmetric_on v st i"
    if pre: "\<forall>st i. accepts w i \<longrightarrow> symmetric_on w st i" and a: "accepts v i" for st i
  proof (cases "st = this")
    case True
    with a this_sym show ?thesis by simp
  next
    case False
    from a have aw: "accepts w i" by (simp add: acc)
    with pre have p: "\<And>st. symmetric_on w st i" by blast
    show ?thesis
      using False p[of st] unfolding symmetric_on_def other[OF False] sn
      by (auto split: option.splits if_splits)
  qed
  show ?thesis
    apply (rule exI[of _ v])
    apply (intro conjI allI impI)
    subgoal by (rule v)
    subgoal by (rule fwd)
    subgoal by (rule this_sym)
    subgoal by (rule gap)
    subgoal by (rule all_fwd)
    subgoal by (rule all_sym)
    done
qed


theorem RecomputeCatchment_symmetric_witness:
  "RecomputeCatchment ex_ca ex_settings 1 False ex_world \<noteq> None
   \<and> accepts (the (RecomputeCatchment ex_ca ex_settings 1 False ex_world)) 7
   \<and> symmetric_on (the (RecomputeCatchment ex_ca ex_settings 1 False ex_world)) 1 7
   \<and> symmetric_on (the (RecomputeCatchment ex_ca ex_settings 1 False ex_world)) 2 7
   \<and> 1 \<in> stations_near (industries (the (RecomputeCatchment ex_ca ex_settings 1 False ex_world)) 7)
   \<and> 7 \<in> industries_near (stations (the (RecomputeCatchment ex_ca ex_settings 1 False ex_world)) 1)
   \<and> 2 \<notin> stations_near (industries (the (RecomputeCatchment ex_ca ex_settings 1 False ex_world)) 7)
   \<and> 7 \<notin> industries_near (stations (the (RecomputeCatchment ex_ca ex_settings 1 False ex_world)) 2)
   \<and> RecomputeCatchment ex_ca ex_settings 1 True ex_world \<noteq> None
   \<and> accepts (the (RecomputeCatchment ex_ca ex_settings 1 True ex_world)) 7
   \<and> symmetric_on (the (RecomputeCatchment ex_ca ex_settings 1 True ex_world)) 1 7"
proof -
  have pre: "\<forall>st i. accepts ex_world i \<longrightarrow> symmetric_on ex_world st i"
    by (simp add: symmetric_on_def ex_world_def ex_industry_def ex_station_def)
  have pre': "\<forall>st i. i \<in> industries_near (stations ex_world st)
                \<longrightarrow> st \<in> stations_near (industries ex_world i)"
    by (simp add: ex_world_def ex_station_def)
  have h1: "False \<longrightarrow> (\<forall>i. 1 \<notin> stations_near (industries ex_world i))" by simp
  have h2: "True \<longrightarrow> (\<forall>i. 1 \<notin> stations_near (industries ex_world i))"
    by (simp add: ex_world_def ex_industry_def)
  from RecomputeCatchment_symmetric[OF h1, where ca = ex_ca and s = ex_settings] pre pre'
  obtain v where v: "RecomputeCatchment ex_ca ex_settings 1 False ex_world = Some v"
    and sym: "\<forall>st i. accepts v i \<longrightarrow> symmetric_on v st i"
    and fwd: "\<forall>st i. i \<in> industries_near (stations v st) \<longrightarrow> st \<in> stations_near (industries v i)"
    by blast
  from RecomputeCatchment_symmetric[OF h2, where ca = ex_ca and s = ex_settings]
  obtain v' where v': "RecomputeCatchment ex_ca ex_settings 1 True ex_world = Some v'"
    and sym': "\<forall>i. accepts v' i \<longrightarrow> symmetric_on v' 1 i" by blast
  have a: "accepts (the (RecomputeCatchment ex_ca ex_settings 1 False ex_world)) 7"
    "accepts (the (RecomputeCatchment ex_ca ex_settings 1 True ex_world)) 7"
    by code_simp+
  have n: "1 \<in> stations_near (industries (the (RecomputeCatchment ex_ca ex_settings 1 False ex_world)) 7)"
    "2 \<notin> stations_near (industries (the (RecomputeCatchment ex_ca ex_settings 1 False ex_world)) 7)"
    by code_simp+
  from a(1) sym v have s1: "symmetric_on v 1 7" and s2: "symmetric_on v 2 7" by simp_all
  from s1 n(1) v have i1: "7 \<in> industries_near (stations v 1)" by (simp add: symmetric_on_def)
  from fwd n(2) v have i2: "7 \<notin> industries_near (stations v 2)" by auto
  from a(2) sym' v' have s3: "symmetric_on v' 1 7" by simp
  from v v' a n s1 s2 s3 i1 i2 show ?thesis by simp
qed

text \<open>
  The claim as stated fails for an industry that accepts no cargo kind: in the example
  world, industry 8 has a tile in the catchment of station 1; after the call station 1 is
  in the stations-near set of industry 8, and industry 8 is not in \<open>industries_near\<close> of
  station 1.
\<close>

theorem RecomputeCatchment_no_cargo_counterexample:
  "1 \<in> stations_near (industries (the (RecomputeCatchment ex_ca ex_settings 1 False ex_world)) 8)
   \<and> 8 \<notin> industries_near (stations (the (RecomputeCatchment ex_ca ex_settings 1 False ex_world)) 1)"
  by code_simp

section \<open>The neutral station of an industry\<close>

text \<open>
  C5 (as amended). For every station with a non-empty rect that is exclusively linked to
  one industry I, with the serve-neutral-industries setting off, \<open>RecomputeCatchment\<close>
  returns with \<open>industries_near\<close> equal to exactly {I}, I's stations-near set equal to
  exactly the station, and the catchment bitmap equal to the tiles of I's location that
  still are industry tiles of I, whatever the radius constants, the radius settings and
  the flag of the call are.
\<close>

theorem RecomputeCatchment_neutral_station:
  assumes "industry (stations w this) = Some ind"
    and "\<not> serve_neutral_industries s"
    and "\<not> IsEmpty (rect (stations w this))"
  shows "\<exists>v. RecomputeCatchment ca s this ncl w = Some v
     \<and> industries_near (stations v this) = {ind}
     \<and> stations_near (industries v ind) = {this}
     \<and> set (catchment_tiles (stations v this))
         = {tile \<in> set (tiles_of (location (industries w ind))).
              IsTileType (map_array w) tile MP_INDUSTRY \<and> GetIndustryIndex (map_array w) tile = ind}"
proof -
  obtain v where v: "RecomputeCatchment ca s this ncl w = Some v"
    using RecomputeCatchment_total by blast
  from assms have n: "neutral_link s this w = Some ind" by (simp add: neutral_link_def)
  have "industries_near (stations v this) = {ind}"
    using RecomputeCatchment_outputs(2)[OF v] assms(3) n by (simp add: near_spec_def)
  moreover have "set (catchment_tiles (stations v this))
      = {tile \<in> set (tiles_of (location (industries w ind))).
           IsTileType (map_array w) tile MP_INDUSTRY \<and> GetIndustryIndex (map_array w) tile = ind}"
    using RecomputeCatchment_outputs(1)[OF v] assms(3) n
    by (simp add: catchment_spec_def industry_footprint_def set_industry_tiles_loop ind_tile_def)
  moreover have "stations_near (industries v ind) = {this}"
    using v assms(3) n unfolding RecomputeCatchment_eq
    by (auto simp: RecomputeCatchment_neutral_result)
  ultimately show ?thesis using v by blast
qed

theorem RecomputeCatchment_neutral_station_witness:
  "industry (stations ex_neutral_world 1) = Some 7
   \<and> \<not> IsEmpty (rect (stations ex_neutral_world 1))
   \<and> RecomputeCatchment ex_ca ex_settings 1 False ex_neutral_world \<noteq> None
   \<and> industries_near (stations (the (RecomputeCatchment ex_ca ex_settings 1 False ex_neutral_world)) 1) = {7}
   \<and> stations_near (industries (the (RecomputeCatchment ex_ca ex_settings 1 False ex_neutral_world)) 7) = {1}
   \<and> set (catchment_tiles (stations (the (RecomputeCatchment ex_ca ex_settings 1 False ex_neutral_world)) 1))
       = {tile \<in> set (tiles_of (location (industries ex_neutral_world 7))).
            IsTileType (map_array ex_neutral_world) tile MP_INDUSTRY
            \<and> GetIndustryIndex (map_array ex_neutral_world) tile = 7}
   \<and> catchment_tiles (stations (the (RecomputeCatchment ex_ca ex_settings 1 False ex_neutral_world)) 1)
       = [(3, 1)]"
proof -
  have h: "industry (stations ex_neutral_world 1) = Some 7"
    "\<not> serve_neutral_industries ex_settings"
    "\<not> IsEmpty (rect (stations ex_neutral_world 1))"
    by (simp_all add: ex_neutral_world_def ex_world_def ex_station_def ex_settings_def IsEmpty_def)
  from RecomputeCatchment_neutral_station[OF h, where ca = ex_ca and ncl = False]
  obtain v where v: "RecomputeCatchment ex_ca ex_settings 1 False ex_neutral_world = Some v"
    and r: "industries_near (stations v 1) = {7}" "stations_near (industries v 7) = {1}"
      "set (catchment_tiles (stations v 1))
         = {tile \<in> set (tiles_of (location (industries ex_neutral_world 7))).
              IsTileType (map_array ex_neutral_world) tile MP_INDUSTRY
              \<and> GetIndustryIndex (map_array ex_neutral_world) tile = 7}"
    by blast
  have c: "catchment_tiles (stations (the (RecomputeCatchment ex_ca ex_settings 1 False ex_neutral_world)) 1)
      = [(3, 1)]"
    by code_simp
  from h v r c show ?thesis by simp
qed

text \<open>
  The claim as stated fails for a station whose rect is empty: the call returns before it
  looks at the industry, and \<open>industries_near\<close> and the catchment are empty.
\<close>

theorem RecomputeCatchment_neutral_empty_counterexample:
  "industry (stations ex_empty_world 1) = Some 7
   \<and> industries_near (stations (the (RecomputeCatchment ex_ca ex_settings 1 False ex_empty_world)) 1) = {}
   \<and> catchment_tiles (stations (the (RecomputeCatchment ex_ca ex_settings 1 False ex_empty_world)) 1) = []"
  by code_simp

section \<open>Destroying a station with a node in a link graph\<close>

lemma update_flows_simps [simp]:
  "link_graphs (update_flows st c f ls) = link_graphs ls"
  "schedule (update_flows st c f ls) = schedule ls"
  "link_graph (goods (update_flows st c f ls) st' c') = link_graph (goods ls st' c')"
  "node (goods (update_flows st c f ls) st' c') = node (goods ls st' c')"
  "flows (goods (update_flows st c f ls) st' c')
     = (if st' = st \<and> c' = c then f (flows (goods ls st' c')) else flows (goods ls st' c'))"
  by (simp_all add: update_flows_def)

lemma node_loop_frame [simp]:
  "link_graphs (node_loop this c lg ns ls) = link_graphs ls"
  "schedule (node_loop this c lg ns ls) = schedule ls"
  "link_graph (goods (node_loop this c lg ns ls) st' c') = link_graph (goods ls st' c')"
  "node (goods (node_loop this c lg ns ls) st' c') = node (goods ls st' c')"
  by (induction ns arbitrary: ls; simp add: Let_def)+

lemma node_loop_other_cargo:
  "c' \<noteq> c \<Longrightarrow> flows (goods (node_loop this c lg ns ls) st' c') = flows (goods ls st' c')"
  by (induction ns arbitrary: ls) (simp_all add: Let_def)

lemma no_reference_erase_Delete: "no_reference st (DeleteFlows st (erase st fl))"
  by (auto simp: no_reference_def DeleteFlows_def erase_def split: option.splits if_splits)

lemma no_reference_preserved:
  "no_reference st fl \<Longrightarrow> no_reference st (erase st fl)"
  "no_reference st fl \<Longrightarrow> no_reference st (DeleteFlows st fl)"
  by (auto simp: no_reference_def DeleteFlows_def erase_def split: option.splits if_splits)

lemma node_loop_keeps_no_reference:
  "no_reference this (flows (goods ls st c)) \<Longrightarrow>
     no_reference this (flows (goods (node_loop this c lg ns ls) st c))"
proof (induction ns arbitrary: ls)
  case Nil
  then show ?case by simp
next
  case (Cons a ns)
  have 1: "no_reference this (flows (goods (update_flows st' c (erase this) ls) st c))" for st'
    using Cons.prems by (auto simp: no_reference_preserved)
  have 2: "no_reference this (flows (goods (update_flows st' c (DeleteFlows this)
              (update_flows st' c (erase this) ls)) st c))" for st'
    using Cons.prems by (auto simp: no_reference_preserved)
  show ?case using Cons.IH[OF 1] Cons.IH[OF 2] by (simp add: Let_def)
qed

lemma node_loop_no_reference:
  assumes "n \<in> set ns" "node_station (lg ! n) = st"
    and "LastUpdate (lg ! n) (node (goods ls this c)) \<noteq> INVALID_DATE"
  shows "no_reference this (flows (goods (node_loop this c lg ns ls) st c))"
  using assms
proof (induction ns arbitrary: ls)
  case Nil
  then show ?case by simp
next
  case (Cons a ns)
  show ?case
  proof (cases "a = n")
    case True
    with Cons.prems show ?thesis
      by (simp add: Let_def node_loop_keeps_no_reference no_reference_erase_Delete)
  next
    case False
    with Cons.prems have "n \<in> set ns" by simp
    with Cons.IH Cons.prems(2,3) show ?thesis by (simp add: Let_def)
  qed
qed

lemma destroy_cargo_goods_frame [simp]:
  "link_graph (goods (destroy_cargo this c ls) st' c') = link_graph (goods ls st' c')"
  "node (goods (destroy_cargo this c ls) st' c') = node (goods ls st' c')"
  by (simp_all add: destroy_cargo_def Let_def split: option.splits)

lemma destroy_cargo_other:
  assumes "c' \<noteq> c" "link_graph (goods ls this c') \<noteq> g"
  shows "link_graphs (destroy_cargo this c' ls) g = link_graphs ls g"
    and "flows (goods (destroy_cargo this c' ls) st c) = flows (goods ls st c)"
    and "g \<in> set (schedule (destroy_cargo this c' ls)) \<longleftrightarrow> g \<in> set (schedule ls)"
  using assms
  by (simp_all add: destroy_cargo_def Let_def node_loop_other_cargo Unqueue_def split: option.splits)

lemma fold_destroy_goods_frame [simp]:
  "link_graph (goods (fold (destroy_cargo this) cs ls) st' c') = link_graph (goods ls st' c')"
  "node (goods (fold (destroy_cargo this) cs ls) st' c') = node (goods ls st' c')"
  by (induction cs arbitrary: ls; simp)+

lemma fold_destroy_other:
  assumes "c \<notin> set cs" "\<forall>c'\<in>set cs. link_graph (goods ls this c') \<noteq> g"
  shows "link_graphs (fold (destroy_cargo this) cs ls) g = link_graphs ls g
    \<and> flows (goods (fold (destroy_cargo this) cs ls) st c) = flows (goods ls st c)
    \<and> (g \<in> set (schedule (fold (destroy_cargo this) cs ls)) \<longleftrightarrow> g \<in> set (schedule ls))"
  using assms
proof (induction cs arbitrary: ls)
  case Nil
  show ?case by simp
next
  case (Cons c' cs)
  from Cons.prems have ne: "c' \<noteq> c" "link_graph (goods ls this c') \<noteq> g" by auto
  from Cons.prems have "c \<notin> set cs"
    "\<forall>c''\<in>set cs. link_graph (goods (destroy_cargo this c' ls) this c'') \<noteq> g" by auto
  from Cons.IH[OF this] destroy_cargo_other[OF ne]
  show ?case by simp
qed

lemma RemoveNode_stations:
  "map node_station (RemoveNode n lg) = take n (map node_station lg) @ drop (Suc n) (map node_station lg)"
  by (simp add: RemoveNode_def take_map drop_map comp_def)

lemma Size_RemoveNode: "n < Size lg \<Longrightarrow> Size (RemoveNode n lg) = Size lg - 1"
  by (auto simp: RemoveNode_def Size_def)

lemma set_take_drop_distinct:
  assumes "distinct xs" "n < length xs"
  shows "set (take n xs @ drop (Suc n) xs) = set xs - {xs ! n}"
proof -
  have e: "xs = take n xs @ xs ! n # drop (Suc n) xs" using assms(2) by (rule id_take_nth_drop)
  have d: "distinct (take n xs @ xs ! n # drop (Suc n) xs)"
    using assms(1) arg_cong[OF e, of distinct] by blast
  have "set xs = set (take n xs @ xs ! n # drop (Suc n) xs)"
    using arg_cong[OF e, of set] .
  with d show ?thesis by auto
qed

lemma destroy_cargo_this:
  assumes g: "link_graphs ls (link_graph (goods ls this c)) = Some lg"
    and n: "node (goods ls this c) < Size lg"
  shows "link_graphs (destroy_cargo this c ls) (link_graph (goods ls this c))
           = (if Size lg = 1 then None else Some (RemoveNode (node (goods ls this c)) lg))"
    and "Size lg = 1 \<Longrightarrow> link_graph (goods ls this c) \<notin> set (schedule (destroy_cargo this c ls))"
    and "flows (goods (destroy_cargo this c ls) st c)
           = flows (goods (node_loop this c lg [0 ..< Size lg] ls) st c)"
  using assms
  by (simp_all add: destroy_cargo_def Let_def Size_RemoveNode Unqueue_def)

text \<open>
  C6 (as amended). Outside the cleaning of the whole pool, let station A have a node in the
  link graph of cargo kind C, the graph holding one node per station and being the graph of
  no other cargo kind of A. Destroying A retires the graph (it is deleted and no longer
  queued) if A's node was its only node. For every other node of the graph whose edge to
  A's node is up to date, with B the station of that node: after the destruction B has no
  flow entry referencing A for C, A's node is removed from the graph, and the graph is kept
  with the remaining nodes, B's among them.
\<close>

theorem Station_destructor_link_graph:
  assumes c: "c < NUM_CARGO"
    and g: "link_graphs ls (link_graph (goods ls A c)) = Some lg"
    and own: "\<forall>c'<NUM_CARGO. c' \<noteq> c \<longrightarrow> link_graph (goods ls A c') \<noteq> link_graph (goods ls A c)"
    and n: "node (goods ls A c) < Size lg"
    and na: "node_station (lg ! node (goods ls A c)) = A"
    and d: "distinct (map node_station lg)"
    and run: "Station_destructor False NUM_CARGO A (w, ls) = (w', ls')"
  shows "(Size lg = 1 \<longrightarrow>
            link_graphs ls' (link_graph (goods ls A c)) = None
            \<and> link_graph (goods ls A c) \<notin> set (schedule ls'))
       \<and> (\<forall>nb. nb < Size lg \<and> nb \<noteq> node (goods ls A c)
                \<and> LastUpdate (lg ! nb) (node (goods ls A c)) \<noteq> INVALID_DATE \<longrightarrow>
              no_reference A (flows (goods ls' (node_station (lg ! nb)) c))
              \<and> (\<exists>lg'. link_graphs ls' (link_graph (goods ls A c)) = Some lg'
                       \<and> A \<notin> set (map node_station lg')
                       \<and> node_station (lg ! nb) \<in> set (map node_station lg')
                       \<and> Size lg' = Size lg - 1))"
proof -
  let ?g = "link_graph (goods ls A c)" and ?na = "node (goods ls A c)"
  let ?ls1 = "fold (destroy_cargo A) [0 ..< c] ls"
  let ?ls2 = "destroy_cargo A c ?ls1"
  have split: "[0 ..< NUM_CARGO] = [0 ..< c] @ c # [Suc c ..< NUM_CARGO]"
    using c by (metis le_add2 le_add_same_cancel2 less_imp_add_positive upt_add_eq_append upt_conv_Cons)
  from run have ls': "ls' = fold (destroy_cargo A) [Suc c ..< NUM_CARGO] ?ls2"
    by (simp add: Station_destructor_def split)
  have before: "c \<notin> set [0 ..< c]" "\<forall>c'\<in>set [0 ..< c]. link_graph (goods ls A c') \<noteq> ?g"
    using own c by auto
  have after: "c \<notin> set [Suc c ..< NUM_CARGO]"
    "\<forall>c'\<in>set [Suc c ..< NUM_CARGO]. link_graph (goods ?ls2 A c') \<noteq> ?g"
    using own c by auto
  note f1 = fold_destroy_other[OF before]
  note f2 = fold_destroy_other[OF after, folded ls']
  have g1: "link_graphs ?ls1 (link_graph (goods ?ls1 A c)) = Some lg" using f1 g by simp
  have n1: "node (goods ?ls1 A c) < Size lg" using n by simp
  note t = destroy_cargo_this[OF g1 n1, simplified]
  have graph: "link_graphs ls' ?g = (if Size lg = 1 then None else Some (RemoveNode ?na lg))"
    using f2 t(1) by simp
  have sched: "Size lg = 1 \<Longrightarrow> ?g \<notin> set (schedule ls')"
    using f2 t(2) by simp
  have fl: "flows (goods ls' st c) = flows (goods (node_loop A c lg [0 ..< Size lg] ?ls1) st c)" for st
    using f2 t(3) by simp
  have stations: "set (map node_station (RemoveNode ?na lg)) = set (map node_station lg) - {A}"
    using set_take_drop_distinct[OF d, of ?na] n na
    by (simp add: RemoveNode_stations Size_def)
  have part2: "no_reference A (flows (goods ls' (node_station (lg ! nb)) c))
      \<and> (\<exists>lg'. link_graphs ls' ?g = Some lg' \<and> A \<notin> set (map node_station lg')
               \<and> node_station (lg ! nb) \<in> set (map node_station lg') \<and> Size lg' = Size lg - 1)"
    if nb: "nb < Size lg" "nb \<noteq> ?na" "LastUpdate (lg ! nb) ?na \<noteq> INVALID_DATE" for nb
  proof -
    have "no_reference A (flows (goods (node_loop A c lg [0 ..< Size lg] ?ls1) (node_station (lg ! nb)) c))"
      using nb by (intro node_loop_no_reference[of nb]) simp_all
    then have 1: "no_reference A (flows (goods ls' (node_station (lg ! nb)) c))" by (simp add: fl)
    from nb n have "Size lg \<noteq> 1" by auto
    with graph have 2: "link_graphs ls' ?g = Some (RemoveNode ?na lg)" by simp
    have "node_station (lg ! nb) \<noteq> A"
      using d nb n na by (metis Size_def length_map nth_eq_iff_index_eq nth_map)
    moreover have "node_station (lg ! nb) \<in> set (map node_station lg)"
      using nb(1) by (simp add: Size_def)
    ultimately have 3: "A \<notin> set (map node_station (RemoveNode ?na lg))"
      "node_station (lg ! nb) \<in> set (map node_station (RemoveNode ?na lg))"
      unfolding stations by auto
    from 1 2 3 Size_RemoveNode[OF n] show ?thesis by blast
  qed
  from graph sched part2 show ?thesis by simp
qed

theorem Station_destructor_link_graph_witness:
  "no_reference 1 (flows (goods (snd (Station_destructor False 2 1 (ex_world, ex_link_state))) 2 0))
   \<and> flows (goods (snd (Station_destructor False 2 1 (ex_world, ex_link_state))) 2 0) 3 = Some {2}
   \<and> (\<exists>lg'. link_graphs (snd (Station_destructor False 2 1 (ex_world, ex_link_state))) 5 = Some lg'
            \<and> 1 \<notin> set (map node_station lg') \<and> 2 \<in> set (map node_station lg') \<and> Size lg' = 1)
   \<and> link_graphs (snd (Station_destructor False 2 1 (ex_world, ex_single_state))) 5 = None
   \<and> 5 \<notin> set (schedule (snd (Station_destructor False 2 1 (ex_world, ex_single_state))))"
proof -
  let ?lg = "[\<lparr>node_station = 1, LastUpdate = (\<lambda>_. INVALID_DATE)\<rparr>,
              \<lparr>node_station = 2, LastUpdate = (\<lambda>to. if to = 0 then 100 else INVALID_DATE)\<rparr>]"
  let ?lg1 = "[\<lparr>node_station = 1, LastUpdate = (\<lambda>_. INVALID_DATE)\<rparr>]"
  have two: "(0::nat) < 2" by simp
  have g: "link_graphs ex_link_state (link_graph (goods ex_link_state 1 0)) = Some ?lg"
    by (simp add: ex_link_state_def)
  have own: "\<forall>c'<2. c' \<noteq> 0 \<longrightarrow>
      link_graph (goods ex_link_state 1 c') \<noteq> link_graph (goods ex_link_state 1 0)"
    by (simp add: ex_link_state_def)
  have n: "node (goods ex_link_state 1 0) < Size ?lg"
    "node_station (?lg ! node (goods ex_link_state 1 0)) = 1"
    "distinct (map node_station ?lg)"
    by (simp_all add: ex_link_state_def Size_def)
  have run: "Station_destructor False 2 1 (ex_world, ex_link_state)
      = (fst (Station_destructor False 2 1 (ex_world, ex_link_state)),
         snd (Station_destructor False 2 1 (ex_world, ex_link_state)))" by simp
  have live: "1 < Size ?lg \<and> 1 \<noteq> node (goods ex_link_state 1 0)
      \<and> LastUpdate (?lg ! 1) (node (goods ex_link_state 1 0)) \<noteq> INVALID_DATE"
    by (simp add: ex_link_state_def Size_def INVALID_DATE_def)
  have b: "node_station (?lg ! 1) = 2" "Size ?lg - 1 = 1" by (simp_all add: Size_def)
  note t2 = Station_destructor_link_graph[OF two g own n run]
  have g1: "link_graphs ex_single_state (link_graph (goods ex_single_state 1 0)) = Some ?lg1"
    by (simp add: ex_single_state_def ex_link_state_def)
  have own1: "\<forall>c'<2. c' \<noteq> 0 \<longrightarrow>
      link_graph (goods ex_single_state 1 c') \<noteq> link_graph (goods ex_single_state 1 0)"
    by (simp add: ex_single_state_def ex_link_state_def)
  have n1: "node (goods ex_single_state 1 0) < Size ?lg1"
    "node_station (?lg1 ! node (goods ex_single_state 1 0)) = 1"
    "distinct (map node_station ?lg1)"
    by (simp_all add: ex_single_state_def ex_link_state_def Size_def)
  have run1: "Station_destructor False 2 1 (ex_world, ex_single_state)
      = (fst (Station_destructor False 2 1 (ex_world, ex_single_state)),
         snd (Station_destructor False 2 1 (ex_world, ex_single_state)))" by simp
  have s1: "Size ?lg1 = 1" "link_graph (goods ex_single_state 1 0) = 5"
    by (simp_all add: Size_def ex_single_state_def ex_link_state_def)
  note t1 = Station_destructor_link_graph[OF two g1 own1 n1 run1]
  have five: "link_graph (goods ex_link_state 1 0) = 5" by (simp add: ex_link_state_def)
  have fl: "flows (goods (snd (Station_destructor False 2 1 (ex_world, ex_link_state))) 2 0) 3 = Some {2}"
    by code_simp
  from t2 live b five t1 s1 fl show ?thesis by auto
qed

text \<open>
  The claim as stated fails where it says that the graph is retired if A and B were its
  only two nodes: in the example, after station 1 is destroyed graph 5 is still in the pool,
  with the node of station 2, and still queued. The destructor retires a graph only when
  \<open>lg->Size() == 0\<close> after the removal.
\<close>

theorem Station_destructor_two_nodes_counterexample:
  "map node_station (the (link_graphs (snd (Station_destructor False 2 1 (ex_world, ex_link_state))) 5)) = [2]
   \<and> link_graphs (snd (Station_destructor False 2 1 (ex_world, ex_link_state))) 5 \<noteq> None
   \<and> 5 \<in> set (schedule (snd (Station_destructor False 2 1 (ex_world, ex_link_state))))"
  by code_simp

section \<open>Recomputing twice\<close>

text \<open>
  C7. Calling \<open>RecomputeCatchment\<close> twice in succession on the same station, with the same
  constants and settings and nothing changed in between, returns both times, and the
  catchment bitmap and the \<open>industries_near\<close> set after the second call are those after the
  first, whatever the flags of the two calls are.
\<close>

theorem RecomputeCatchment_idempotent:
  "\<exists>v1 v2. RecomputeCatchment ca s this ncl w = Some v1
     \<and> RecomputeCatchment ca s this ncl' v1 = Some v2
     \<and> catchment_tiles (stations v2 this) = catchment_tiles (stations v1 this)
     \<and> industries_near (stations v2 this) = industries_near (stations v1 this)"
proof -
  obtain v1 where v1: "RecomputeCatchment ca s this ncl w = Some v1"
    using RecomputeCatchment_total by blast
  obtain v2 where v2: "RecomputeCatchment ca s this ncl' v1 = Some v2"
    using RecomputeCatchment_total by blast
  note same = same_inputs_specs[OF RecomputeCatchment_same_inputs[OF v1], of ca s]
  have "catchment_tiles (stations v2 this) = catchment_tiles (stations v1 this)"
    using RecomputeCatchment_outputs(1)[OF v1] RecomputeCatchment_outputs(1)[OF v2] same(1)
    by simp
  moreover have "industries_near (stations v2 this) = industries_near (stations v1 this)"
    using RecomputeCatchment_outputs(2)[OF v1] RecomputeCatchment_outputs(2)[OF v2] same(2)
    by simp
  ultimately show ?thesis using v1 v2 by blast
qed

theorem RecomputeCatchment_idempotent_witness:
  "\<exists>v1 v2. RecomputeCatchment ex_ca ex_settings 1 False ex_world = Some v1
     \<and> RecomputeCatchment ex_ca ex_settings 1 False v1 = Some v2
     \<and> catchment_tiles (stations v2 1) = catchment_tiles (stations v1 1)
     \<and> industries_near (stations v2 1) = industries_near (stations v1 1)
     \<and> industries_near (stations v1 1) = {7}"
proof -
  from RecomputeCatchment_idempotent[of ex_ca ex_settings 1 False ex_world False]
  obtain v1 v2 where v: "RecomputeCatchment ex_ca ex_settings 1 False ex_world = Some v1"
    "RecomputeCatchment ex_ca ex_settings 1 False v1 = Some v2"
    "catchment_tiles (stations v2 1) = catchment_tiles (stations v1 1)"
    "industries_near (stations v2 1) = industries_near (stations v1 1)" by blast
  have "industries_near (stations (the (RecomputeCatchment ex_ca ex_settings 1 False ex_world)) 1) = {7}"
    by code_simp
  with v show ?thesis by simp
qed

section \<open>The radius bonus\<close>

text \<open>
  Away from the border of the map the expanded area of one tile is the square of side
  2r+1 centred on the tile.
\<close>

lemma square_interior:
  assumes "int r \<le> x" "int r \<le> y" "x + int r < MapSizeX w" "y + int r < MapSizeY w"
  shows "set (square w (x, y) r) = {(a, b). \<bar>a - x\<bar> \<le> int r \<and> \<bar>b - y\<bar> \<le> int r}"
  using assms
  by (auto simp: square_def Expand_def Let_def set_tiles_of TileX_def TileY_def TileXY_def)

lemma square_mono:
  assumes "r1 \<le> r2"
  shows "set (square w tile r1) \<subseteq> set (square w tile r2)"
proof -
  have "set (tiles_of ta) = {(x, y). TileX (ta_tile ta) \<le> x \<and> x \<le> TileX (ta_tile ta) + ta_w ta - 1
                              \<and> TileY (ta_tile ta) \<le> y \<and> y \<le> TileY (ta_tile ta) + ta_h ta - 1}" for ta
    by (auto simp: tiles_of_def TileXY_def)
  with assms show ?thesis
    by (auto simp: square_def Expand_def Let_def TileX_def TileY_def TileXY_def)
qed

lemma spec_radius_mono:
  assumes "b1 \<le> b2"
  shows "spec_radius ca (s\<lparr>catchment_increase := b1\<rparr>) t airport
           \<le> spec_radius ca (s\<lparr>catchment_increase := b2\<rparr>) t airport"
  using assms by (simp add: spec_radius_def)

lemma general_catchment_mono:
  assumes "b1 \<le> b2"
  shows "set (general_catchment ca (s\<lparr>catchment_increase := b1\<rparr>) this w)
           \<subseteq> set (general_catchment ca (s\<lparr>catchment_increase := b2\<rparr>) this w)"
proof
  fix tile2
  let ?m = "map_array w" and ?a = "airport_catchment (stations w this)"
  let ?r1 = "\<lambda>tile. spec_radius ca (s\<lparr>catchment_increase := b1\<rparr>) (GetStationType ?m tile) ?a"
  let ?r2 = "\<lambda>tile. spec_radius ca (s\<lparr>catchment_increase := b2\<rparr>) (GetStationType ?m tile) ?a"
  assume "tile2 \<in> set (general_catchment ca (s\<lparr>catchment_increase := b1\<rparr>) this w)"
  then obtain tile where t: "tile \<in> set (rect_tiles (rect (stations w this)))"
    "own_tile ?m this tile" "?r1 tile \<noteq> 0" "tile2 \<in> set (square w tile (?r1 tile))"
    unfolding general_catchment_def in_fold_catchment_step by auto
  have le: "?r1 tile \<le> ?r2 tile" using assms by (rule spec_radius_mono)
  with t(3) have "?r2 tile \<noteq> 0" by simp
  moreover from t(4) le have "tile2 \<in> set (square w tile (?r2 tile))"
    using square_mono by blast
  ultimately show "tile2 \<in> set (general_catchment ca (s\<lparr>catchment_increase := b2\<rparr>) this w)"
    using t(1,2) unfolding general_catchment_def in_fold_catchment_step by blast
qed

text \<open>
  C8. For every station and every pair of radius bonuses b1 \<le> b2, with everything else
  equal, \<open>RecomputeCatchment\<close> returns under both, and every tile in the catchment bitmap
  computed under b1 is in the bitmap computed under b2.
\<close>

theorem RecomputeCatchment_bonus_monotone:
  assumes "b1 \<le> b2"
  shows "\<exists>v1 v2. RecomputeCatchment ca (s\<lparr>catchment_increase := b1\<rparr>) this ncl w = Some v1
     \<and> RecomputeCatchment ca (s\<lparr>catchment_increase := b2\<rparr>) this ncl w = Some v2
     \<and> (\<forall>tile. HasTile (catchment_tiles (stations v1 this)) tile
                \<longrightarrow> HasTile (catchment_tiles (stations v2 this)) tile)"
proof -
  obtain v1 where v1: "RecomputeCatchment ca (s\<lparr>catchment_increase := b1\<rparr>) this ncl w = Some v1"
    using RecomputeCatchment_total by blast
  obtain v2 where v2: "RecomputeCatchment ca (s\<lparr>catchment_increase := b2\<rparr>) this ncl w = Some v2"
    using RecomputeCatchment_total by blast
  have n: "neutral_link (s\<lparr>catchment_increase := b1\<rparr>) this w
      = neutral_link (s\<lparr>catchment_increase := b2\<rparr>) this w"
    by (simp add: neutral_link_def)
  have "set (catchment_spec ca (s\<lparr>catchment_increase := b1\<rparr>) this w)
      \<subseteq> set (catchment_spec ca (s\<lparr>catchment_increase := b2\<rparr>) this w)"
    unfolding catchment_spec_def n using general_catchment_mono[OF assms]
    by (simp split: option.splits)
  then show ?thesis
    using v1 v2 RecomputeCatchment_outputs(1)[OF v1] RecomputeCatchment_outputs(1)[OF v2]
    by (auto simp: HasTile_def)
qed

theorem RecomputeCatchment_bonus_monotone_witness:
  "(0::nat) \<le> 1
   \<and> (\<exists>v1 v2. RecomputeCatchment ex_ca (ex_settings\<lparr>catchment_increase := 0\<rparr>) 1 False ex_world = Some v1
        \<and> RecomputeCatchment ex_ca (ex_settings\<lparr>catchment_increase := 1\<rparr>) 1 False ex_world = Some v2
        \<and> (\<forall>tile. HasTile (catchment_tiles (stations v1 1)) tile
                   \<longrightarrow> HasTile (catchment_tiles (stations v2 1)) tile)
        \<and> HasTile (catchment_tiles (stations v1 1)) (4, 4)
        \<and> \<not> HasTile (catchment_tiles (stations v1 1)) (5, 5)
        \<and> HasTile (catchment_tiles (stations v2 1)) (5, 5))"
proof -
  have le: "(0::nat) \<le> 1" by simp
  from RecomputeCatchment_bonus_monotone[OF le, where ca = ex_ca and s = ex_settings and this = 1
      and ncl = False and w = ex_world]
  obtain v1 v2 where v:
    "RecomputeCatchment ex_ca (ex_settings\<lparr>catchment_increase := 0\<rparr>) 1 False ex_world = Some v1"
    "RecomputeCatchment ex_ca (ex_settings\<lparr>catchment_increase := 1\<rparr>) 1 False ex_world = Some v2"
    "\<forall>tile. HasTile (catchment_tiles (stations v1 1)) tile
            \<longrightarrow> HasTile (catchment_tiles (stations v2 1)) tile" by blast
  have "HasTile (catchment_tiles (stations (the (RecomputeCatchment ex_ca
            (ex_settings\<lparr>catchment_increase := 0\<rparr>) 1 False ex_world)) 1)) (4, 4)"
    "\<not> HasTile (catchment_tiles (stations (the (RecomputeCatchment ex_ca
            (ex_settings\<lparr>catchment_increase := 0\<rparr>) 1 False ex_world)) 1)) (5, 5)"
    "HasTile (catchment_tiles (stations (the (RecomputeCatchment ex_ca
            (ex_settings\<lparr>catchment_increase := 1\<rparr>) 1 False ex_world)) 1)) (5, 5)"
    by code_simp+
  with v le show ?thesis by auto
qed

section \<open>The radius of a station tile\<close>

text \<open>
  C9. \<open>GetTileCatchmentRadius\<close> returns, for a station tile, the radius that the spec
  describes (and stops at its assertion for any other tile): zero for waypoint and buoy
  tiles; otherwise the radius of the tile's type, the airport's own for an airport tile,
  plus the bonus when radii are modified per type, and the flat unmodified radius plus the
  bonus when they are not. It is a function of the tile's station type, the airport's
  catchment and the settings only: two calls on station tiles of the same station type, of
  stations whose airports have the same catchment where the type is an airport, return the
  same radius, whatever the maps, the tiles and the stations are.
\<close>

theorem GetTileCatchmentRadius_pure:
  "GetTileCatchmentRadius ca s m tile st
     = (if IsTileType m tile MP_STATION
        then Some (spec_radius ca s (GetStationType m tile) (airport_catchment st))
        else None)
   \<and> (IsTileType m tile MP_STATION \<and> IsTileType m' tile' MP_STATION
        \<and> GetStationType m' tile' = GetStationType m tile
        \<and> (GetStationType m tile = STATION_AIRPORT
              \<longrightarrow> airport_catchment st' = airport_catchment st)
      \<longrightarrow> GetTileCatchmentRadius ca s m' tile' st' = GetTileCatchmentRadius ca s m tile st)"
proof -
  have "spec_radius ca s t a = spec_radius ca s t a'" if "t = STATION_AIRPORT \<longrightarrow> a = a'" for t a a'
    using that by (cases t) (simp_all add: spec_radius_def type_radius_def)
  moreover have "GetTileCatchmentRadius ca s m tile st = None" if "\<not> IsTileType m tile MP_STATION"
    using that by (simp add: GetTileCatchmentRadius_def)
  ultimately show ?thesis by (auto simp: GetTileCatchmentRadius_spec)
qed

theorem GetTileCatchmentRadius_pure_witness:
  "IsTileType ex_map (1, 1) MP_STATION
   \<and> GetTileCatchmentRadius ex_ca ex_settings ex_map (1, 1) ex_station = Some 3
   \<and> GetTileCatchmentRadius ex_ca
        (ex_settings\<lparr>modified_catchment := False, catchment_increase := 2\<rparr>) ex_map (1, 1) ex_station
       = Some 6
   \<and> GetTileCatchmentRadius ex_ca ex_settings ex_map (1, 1) (ex_station\<lparr>airport_catchment := 9\<rparr>)
       = GetTileCatchmentRadius ex_ca ex_settings ex_map (1, 1) ex_station"
proof -
  have h: "IsTileType ex_map (1, 1) MP_STATION"
    by (simp add: ex_map_def IsTileType_def clear_tile_def)
  have t: "GetStationType ex_map (1, 1) = STATION_TRUCK"
    by (simp add: ex_map_def GetStationType_def clear_tile_def)
  have v: "spec_radius ex_ca ex_settings STATION_TRUCK (airport_catchment ex_station) = 3"
    "spec_radius ex_ca (ex_settings\<lparr>modified_catchment := False, catchment_increase := 2\<rparr>)
       STATION_TRUCK (airport_catchment ex_station) = 6"
    by (simp_all add: spec_radius_def type_radius_def ex_ca_def ex_settings_def)
  from GetTileCatchmentRadius_pure[where ca = ex_ca and s = ex_settings and m = ex_map
      and tile = "(1, 1)" and st = ex_station
      and m' = ex_map and tile' = "(1, 1)" and st' = "ex_station\<lparr>airport_catchment := 9\<rparr>"]
    GetTileCatchmentRadius_pure[where ca = ex_ca
      and s = "ex_settings\<lparr>modified_catchment := False, catchment_increase := 2\<rparr>"
      and m = ex_map and tile = "(1, 1)" and st = ex_station
      and m' = ex_map and tile' = "(1, 1)" and st' = ex_station]
    h t v
  show ?thesis by simp
qed

section \<open>An empty rect\<close>

text \<open>
  C10. When \<open>RecomputeCatchment\<close> is called on a station whose rect is empty, it returns
  with the catchment bitmap reset to empty and \<open>industries_near\<close> cleared, and the station's
  tile count is the one it held before the call.
\<close>

theorem RecomputeCatchment_empty_rect:
  assumes "IsEmpty (rect (stations w this))"
  shows "\<exists>v. RecomputeCatchment ca s this ncl w = Some v
     \<and> catchment_tiles (stations v this) = Reset
     \<and> industries_near (stations v this) = {}
     \<and> station_tiles (stations v this) = station_tiles (stations w this)"
  using assms by (simp add: RecomputeCatchment_eq Reset_def)

theorem RecomputeCatchment_empty_rect_witness:
  "IsEmpty (rect (stations ex_empty_world 1))
   \<and> station_tiles (stations ex_empty_world 1) = 5
   \<and> RecomputeCatchment ex_ca ex_settings 1 False ex_empty_world \<noteq> None
   \<and> catchment_tiles (stations (the (RecomputeCatchment ex_ca ex_settings 1 False ex_empty_world)) 1) = Reset
   \<and> industries_near (stations (the (RecomputeCatchment ex_ca ex_settings 1 False ex_empty_world)) 1) = {}
   \<and> station_tiles (stations (the (RecomputeCatchment ex_ca ex_settings 1 False ex_empty_world)) 1) = 5"
proof -
  have h: "IsEmpty (rect (stations ex_empty_world 1))"
    by (simp add: ex_empty_world_def IsEmpty_def MakeEmpty_def)
  have n: "station_tiles (stations ex_empty_world 1) = 5"
    by (simp add: ex_empty_world_def)
  from RecomputeCatchment_empty_rect[OF h, where ca = ex_ca and s = ex_settings and ncl = False] h n
  show ?thesis by auto
qed

end
